theory Spec2Isabelle
  imports Complex_Main "HOL-Library.Word" "HOL-Library.List_Lexorder"
    "HOL-Library.Product_Lexorder"
begin

section \<open>Encryption key configuration (config/crypto-config.js)\<close>

text \<open>
  The process environment, as far as the data layer reads it. A variable that is not set
  is \<open>None\<close>. JavaScript treats both an unset variable and the empty string as false in
  a condition, which \<open>truthy\<close> writes out.
\<close>

type_synonym byte = "8 word"

record env =
  ENCRYPTION_KEY :: "string option"
  NODE_ENV :: "string option"
  DB_TYPE :: "string option"
  EMBEDDED_MODE :: "string option"

definition truthy :: "string option \<Rightarrow> bool" where
  "truthy v = (case v of None \<Rightarrow> False | Some s \<Rightarrow> s \<noteq> [])"

definition is_hex :: "char \<Rightarrow> bool" where
  "is_hex c = (let n = (of_char c :: nat) in
     (48 \<le> n \<and> n \<le> 57) \<or> (97 \<le> n \<and> n \<le> 102) \<or> (65 \<le> n \<and> n \<le> 70))"

definition hex_val :: "char \<Rightarrow> nat" where
  "hex_val c = (let n = (of_char c :: nat) in
     if 48 \<le> n \<and> n \<le> 57 then n - 48
     else if 97 \<le> n \<and> n \<le> 102 then n - 87
     else n - 55)"

text \<open>The test \<^verbatim>\<open>/^[0-9a-fA-F]{64}$/.test(envKey)\<close>.\<close>

definition is_hex64 :: "string \<Rightarrow> bool" where
  "is_hex64 s = (length s = 64 \<and> list_all is_hex s)"

text \<open>
  \<^verbatim>\<open>Buffer.from(s, 'hex')\<close>: two digits give one byte; decoding stops at the first pair
  that is not two hexadecimal digits, and a trailing single digit is dropped.
\<close>

fun hex_decode :: "string \<Rightarrow> byte list" where
  "hex_decode (a # b # cs) =
     (if is_hex a \<and> is_hex b then of_nat (16 * hex_val a + hex_val b) # hex_decode cs else [])"
| "hex_decode _ = []"

definition HARDCODED_KEY :: "byte list" where
  "HARDCODED_KEY =
     hex_decode ''0123456789abcdef0123456789abcdef0123456789abcdef0123456789abcdef''"

datatype config_error = MissingEncryptionKey

text \<open>
  The two lines of the warning. Each starts with the warning sign (U+26A0, U+FE0F) and two
  blanks; a string here is a list of bytes, and the sign is its six bytes in UTF-8.
\<close>

definition warning_sign :: string where
  "warning_sign = map char_of [226, 154, 160, 239, 184, 143 :: nat]"

definition hardcoded_key_warnings :: "string list" where
  "hardcoded_key_warnings =
     [warning_sign
        @ ''  WARNING: Using hardcoded encryption key. This is insecure for production!'',
      warning_sign
        @ ''  Set ENCRYPTION_KEY environment variable for secure key management.'']"

text \<open>
  \<open>getEncryptionKey\<close> returns the key together with the lines it wrote with
  \<^verbatim>\<open>console.warn\<close>, or the error it threw. The SHA-256 digest of Node's \<^verbatim>\<open>crypto\<close>
  module is the parameter \<open>sha256\<close>.
\<close>

definition getEncryptionKey ::
  "(string \<Rightarrow> byte list) \<Rightarrow> env \<Rightarrow> config_error + (byte list \<times> string list)" where
  "getEncryptionKey sha256 e =
     (if truthy (ENCRYPTION_KEY e) then
        (let envKey = the (ENCRYPTION_KEY e) in
         if is_hex64 envKey then Inr (hex_decode envKey, [])
         else Inr (sha256 envKey, []))
      else if NODE_ENV e = Some ''production'' then Inl MissingEncryptionKey
      else Inr (HARDCODED_KEY, hardcoded_key_warnings))"


section \<open>The store (config/database-factory.js, config/database.js, config/database-sqlite.js)\<close>

text \<open>
  The factory picks the adapter once, when the module is loaded: SQLite when
  \<^verbatim>\<open>DB_TYPE\<close> (or, without it, the default derived from \<^verbatim>\<open>EMBEDDED_MODE\<close>) is
  \<^verbatim>\<open>'sqlite'\<close>, PostgreSQL otherwise.
\<close>

datatype backend = Server | Embedded

definition db_type :: "env \<Rightarrow> string" where
  "db_type e =
     (if truthy (DB_TYPE e) then the (DB_TYPE e)
      else if EMBEDDED_MODE e = Some ''true'' then ''sqlite'' else ''postgresql'')"

definition select_backend :: "env \<Rightarrow> backend" where
  "select_backend e = (if db_type e = ''sqlite'' then Embedded else Server)"

text \<open>
  Rows carry the columns the queries of the routes read or write. A column that may be
  NULL is an \<open>option\<close>; a primary key is one as well, because the embedded schema
  declares \<^verbatim>\<open>id TEXT PRIMARY KEY\<close> with no default and the inserts of the routes name no
  id. Timestamps are integers (milliseconds since the epoch), durations in hours and
  scores are rationals.
\<close>

record resource =
  r_id :: "string option"
  r_organization_id :: string
  r_deleted_at :: "int option"

record time_log =
  tl_id :: "string option"
  tl_organization_id :: string
  tl_user_id :: string
  tl_project_id :: string
  tl_task_id :: string
  tl_start_time :: int
  tl_end_time :: int
  tl_duration_ms :: int
  tl_duration_hours :: rat
  tl_paused_duration_ms :: int
  tl_activity_score :: rat
  tl_description :: "string option"
  tl_is_billable :: bool
  tl_status :: "string option"
  tl_approved_by :: "string option"
  tl_approved_at :: "int option"
  tl_created_at :: int
  tl_updated_at :: int
  tl_deleted_at :: "int option"

record screenshot =
  s_id :: "string option"
  s_organization_id :: string
  s_user_id :: string
  s_time_log_id :: "string option"
  s_s3_key :: string
  s_s3_url :: string
  s_file_size :: "int option"
  s_mime_type :: "string option"
  s_captured_at :: int
  s_created_at :: int
  s_deleted_at :: "int option"

record web_log =
  w_id :: "string option"
  w_domain :: string
  w_url :: "string option"
  w_activity_type :: string
  w_timestamp :: int
  w_created_at :: int

text \<open>
  The database: the adapter in use, whether the engine answers at all (\<open>online\<close>; when it
  does not, every query rejects), and the tables.
\<close>

record db =
  backend :: backend
  online :: bool
  organizations :: "string list"
  users :: "resource list"
  projects :: "resource list"
  tasks :: "resource list"
  time_logs :: "time_log list"
  screenshots :: "screenshot list"
  web_logs :: "web_log list"

datatype storage_error = StorageError

subsection \<open>Placeholders\<close>

text \<open>
  A statement is written with the placeholders \<^verbatim>\<open>$1\<close>, \<^verbatim>\<open>$2\<close>, ... of PostgreSQL.
  The server store hands text and parameters to \<^verbatim>\<open>pool.query\<close>, which gives placeholder
  \<^verbatim>\<open>$k\<close> the \<open>k\<close>-th parameter. The embedded store first runs
  \<^verbatim>\<open>text.replace(/\$(\d+)/g, '?')\<close>, and SQLite gives the \<open>i\<close>-th \<^verbatim>\<open>?\<close> of the text
  the \<open>i\<close>-th parameter. \<open>bound b ks ps\<close> is what the placeholder occurrences of a
  statement receive, in the order of the text, where \<open>ks\<close> lists the numbers of the
  occurrences in that order; \<open>None\<close> is an occurrence that no parameter reaches.
\<close>

definition bound :: "backend \<Rightarrow> nat list \<Rightarrow> 'a list \<Rightarrow> 'a option list" where
  "bound b ks ps =
     (case b of
        Server \<Rightarrow> map (\<lambda>k. if 1 \<le> k \<and> k \<le> length ps then Some (ps ! (k - 1)) else None) ks
      | Embedded \<Rightarrow> map (\<lambda>i. if i < length ps then Some (ps ! i) else None) [0..<length ks])"

text \<open>
  A query of a route: the engine must answer and every occurrence must be bound; the
  statement itself is the function \<open>stmt\<close> of the bound values.
\<close>

definition query :: "db \<Rightarrow> nat list \<Rightarrow> 'a list \<Rightarrow> ('a list \<Rightarrow> storage_error + 'r) \<Rightarrow> storage_error + 'r" where
  "query d ks ps stmt =
     (if \<not> online d then Inl StorageError
      else case those (bound (backend d) ks ps) of
             None \<Rightarrow> Inl StorageError
           | Some vs \<Rightarrow> stmt vs)"

subsection \<open>Constraints of the time_logs table (database/schema.sql, createSchema)\<close>

text \<open>
  Both schemas declare foreign keys from \<^verbatim>\<open>time_logs\<close> to organizations, users, projects
  and tasks (the embedded store switches them on with \<^verbatim>\<open>PRAGMA foreign_keys = ON\<close>).
  Only the server schema has \<^verbatim>\<open>approved_by UUID REFERENCES users(id)\<close> and the two
  checks \<^verbatim>\<open>valid_time_range CHECK (end_time > start_time)\<close> and
  \<^verbatim>\<open>valid_duration CHECK (duration_ms > 0)\<close>.
\<close>

definition has_key :: "resource list \<Rightarrow> string \<Rightarrow> bool" where
  "has_key rs k = (Some k \<in> set (map r_id rs))"

definition fk_approved_by :: "db \<Rightarrow> time_log \<Rightarrow> bool" where
  "fk_approved_by d r =
     (backend d = Server \<longrightarrow>
        (case tl_approved_by r of None \<Rightarrow> True | Some a \<Rightarrow> has_key (users d) a))"

definition insert_ok :: "db \<Rightarrow> time_log \<Rightarrow> bool" where
  "insert_ok d r =
     (tl_organization_id r \<in> set (organizations d)
      \<and> has_key (users d) (tl_user_id r)
      \<and> has_key (projects d) (tl_project_id r)
      \<and> has_key (tasks d) (tl_task_id r)
      \<and> (tl_id r = None \<or> tl_id r \<notin> set (map tl_id (time_logs d)))
      \<and> fk_approved_by d r
      \<and> (backend d = Server \<longrightarrow> tl_end_time r > tl_start_time r \<and> tl_duration_ms r > 0))"

text \<open>The primary key: no two rows share an id that is not NULL.\<close>

definition pk_unique :: "'a option list \<Rightarrow> bool" where
  "pk_unique ids = distinct (filter (\<lambda>i. i \<noteq> None) ids)"

section \<open>The actor and the replies of the routes\<close>

text \<open>
  \<^verbatim>\<open>req.user\<close>, as \<^verbatim>\<open>authenticate\<close> attaches it. The handlers below are what a route runs
  behind \<^verbatim>\<open>authenticate\<close>, \<^verbatim>\<open>enforceOrganizationAccess\<close> and, where the route has it,
  \<^verbatim>\<open>authorize\<close>. A reply is the status code with \<^verbatim>\<open>success: false\<close> and the message, or
  with \<^verbatim>\<open>success: true\<close>, the message and the data. The \<^verbatim>\<open>errors\<close> and \<^verbatim>\<open>error\<close>
  details of a failure, and the presigned URL of a screenshot, are left out.
\<close>

record user =
  u_id :: string
  u_organizationId :: string
  u_firstName :: string
  u_lastName :: string
  u_role :: string

record decided =
  d_id :: "string option"
  d_status :: "string option"
  d_approvedAt :: "int option"
  d_approvedBy_id :: string
  d_approvedBy_name :: string

record bulk_result =
  approved :: nat
  total :: nat
  skipped :: nat

record web_stats =
  ws_productive :: nat
  ws_unproductive :: nat
  ws_meeting :: nat
  ws_total :: nat
  ws_topSites :: "(string \<times> nat \<times> string) list"
  ws_topDistractions :: "(string \<times> nat) list"

datatype data =
    Created time_log
  | Decided decided
  | Bulk bulk_result
  | Shot screenshot
  | Stats web_stats

datatype reply = Fail nat string | Ok nat string data

text \<open>JavaScript's conversion of a text column's value in a template string.\<close>

definition template :: "string option \<Rightarrow> string" where
  "template v = (case v of None \<Rightarrow> ''null'' | Some s \<Rightarrow> s)"

fun decimal :: "nat \<Rightarrow> string" where
  "decimal n =
     (if n < 10 then [char_of (48 + n)]
      else decimal (n div 10) @ [char_of (48 + n mod 10)])"

declare decimal.simps [simp del]

section \<open>Tenant isolation guard (middleware/multiTenancy.js)\<close>

text \<open>
  The guard runs \<^verbatim>\<open>SELECT organization_id FROM ${resourceTable} WHERE id = $1 AND
  deleted_at IS NULL\<close>. The statement exists for the tables that have both columns; on
  any other table name the engine rejects it. The optional \<^verbatim>\<open>idColumn\<close> keeps its
  default \<^verbatim>\<open>'id'\<close>, as in every call of the repository.

  The server schema declares every id as \<^verbatim>\<open>UUID\<close>, the embedded schema as \<^verbatim>\<open>TEXT\<close>.
  The guard and the screenshot route hand the engine an id that no validator has seen. On
  the server store the engine reads such a parameter with its uuid input, the parameter
  \<open>uuid_in\<close> here: it gives the text in the form in which the engine prints the UUID, or
  \<open>None\<close> when the text is no UUID, and the statement then throws. The ids in the rows
  are texts the engine printed, so a parameter that is the id of a stored row stands for
  itself. The embedded store compares the parameter as the text it is. \<open>id_param\<close> is the
  id a statement compares with, \<open>None\<close> when the engine rejects the parameter.
\<close>

definition id_param ::
  "backend \<Rightarrow> (string \<Rightarrow> string option) \<Rightarrow> string option list \<Rightarrow> string \<Rightarrow> string option" where
  "id_param b uuid_in stored i =
     (if b = Embedded \<or> Some i \<in> set stored then Some i else uuid_in i)"

definition org_rows :: "db \<Rightarrow> string \<Rightarrow> resource list option" where
  "org_rows d t =
     (if t = ''users'' then Some (users d)
      else if t = ''projects'' then Some (projects d)
      else if t = ''tasks'' then Some (tasks d)
      else if t = ''time_logs'' then
        Some (map (\<lambda>r. \<lparr>r_id = tl_id r, r_organization_id = tl_organization_id r,
                         r_deleted_at = tl_deleted_at r\<rparr>) (time_logs d))
      else if t = ''screenshots'' then
        Some (map (\<lambda>r. \<lparr>r_id = s_id r, r_organization_id = s_organization_id r,
                         r_deleted_at = s_deleted_at r\<rparr>) (screenshots d))
      else None)"

definition sql_eq :: "'a option \<Rightarrow> 'a option \<Rightarrow> bool" where
  "sql_eq a b = (a \<noteq> None \<and> a = b)"

definition select_organization_id ::
  "(string \<Rightarrow> string option) \<Rightarrow> db \<Rightarrow> string \<Rightarrow> string list
     \<Rightarrow> storage_error + string list" where
  "select_organization_id uuid_in d t ps =
     query d [1] ps (\<lambda>vs.
       case vs of
         [i] \<Rightarrow>
           (case org_rows d t of
              None \<Rightarrow> Inl StorageError
            | Some rows \<Rightarrow>
               (case id_param (backend d) uuid_in (map r_id rows) i of
                  None \<Rightarrow> Inl StorageError
                | Some k \<Rightarrow>
                    Inr (map r_organization_id
                      (filter (\<lambda>r. r_id r = Some k \<and> r_deleted_at r = None) rows))))
       | _ \<Rightarrow> Inl StorageError)"

text \<open>
  The result object is \<^verbatim>\<open>{ valid: true }\<close> or \<^verbatim>\<open>{ valid: false, message }\<close>.
\<close>

datatype validation = Valid | Invalid string

definition valid :: "validation \<Rightarrow> bool" where
  "valid v = (v = Valid)"

definition validateOrganizationResource ::
  "(string \<Rightarrow> string option) \<Rightarrow> db \<Rightarrow> user \<Rightarrow> string \<Rightarrow> string \<Rightarrow> validation" where
  "validateOrganizationResource uuid_in d u resourceId resourceTable =
     (case select_organization_id uuid_in d resourceTable [resourceId] of
        Inl e \<Rightarrow> Invalid ''Validation failed''
      | Inr [] \<Rightarrow> Invalid ''Resource not found''
      | Inr (org # _) \<Rightarrow>
          if org \<noteq> u_organizationId u
          then Invalid ''Resource does not belong to your organization''
          else Valid)"

section \<open>Creating a time log (routes/timeLogs.js, POST /time)\<close>

text \<open>
  The request: the body fields the handler reads, and the two ids the middleware may take
  from the query string instead. \<^verbatim>\<open>startTime\<close> and \<^verbatim>\<open>endTime\<close> are the instants their
  ISO-8601 strings denote, \<^verbatim>\<open>durationMs\<close> is an integer; a body that fails these formats is
  not a value of the record. The validator chain of \<^verbatim>\<open>description\<close> ends in \<^verbatim>\<open>trim()\<close>,
  which rewrites the field before the handler reads it: \<open>b_description\<close> is the trimmed
  text.
\<close>

record time_request =
  b_projectId :: "string option"
  b_taskId :: "string option"
  b_startTime :: int
  b_endTime :: int
  b_durationMs :: int
  b_durationHours :: rat
  b_pausedDurationMs :: "int option"
  b_activityScore :: "rat option"
  b_description :: "string option"
  b_isBillable :: "bool option"
  q_projectId :: "string option"
  q_taskId :: "string option"

text \<open>
  \<^verbatim>\<open>validateProject\<close> and \<^verbatim>\<open>validateTask\<close> take the id from the body, else from the
  query string (the route has no path parameter), with JavaScript's \<^verbatim>\<open>||\<close>. They answer
  403 themselves (\<open>Some\<close> reply) or call \<^verbatim>\<open>next()\<close> (\<open>None\<close>).
\<close>

definition js_or :: "string option \<Rightarrow> string option \<Rightarrow> string option" where
  "js_or a b = (if truthy a then a else b)"

definition validateProject ::
  "(string \<Rightarrow> string option) \<Rightarrow> db \<Rightarrow> user \<Rightarrow> time_request \<Rightarrow> reply option" where
  "validateProject uuid_in d u req =
     (let projectId = js_or (b_projectId req) (q_projectId req) in
      if \<not> truthy projectId then None
      else case validateOrganizationResource uuid_in d u (the projectId) ''projects'' of
             Invalid m \<Rightarrow> Some (Fail 403 m)
           | Valid \<Rightarrow> None)"

definition validateTask ::
  "(string \<Rightarrow> string option) \<Rightarrow> db \<Rightarrow> user \<Rightarrow> time_request \<Rightarrow> reply option" where
  "validateTask uuid_in d u req =
     (let taskId = js_or (b_taskId req) (q_taskId req) in
      if \<not> truthy taskId then None
      else case validateOrganizationResource uuid_in d u (the taskId) ''tasks'' of
             Invalid m \<Rightarrow> Some (Fail 403 m)
           | Valid \<Rightarrow> None)"

text \<open>
  The validators of the route. \<open>isUUID\<close> is express-validator's test, a parameter here.
  The ids that pass it are UUIDs, which the server store accepts; the statements of the
  handlers compare them as texts.
\<close>

definition time_request_valid :: "(string \<Rightarrow> bool) \<Rightarrow> time_request \<Rightarrow> bool" where
  "time_request_valid isUUID req =
     ((case b_projectId req of None \<Rightarrow> False | Some p \<Rightarrow> isUUID p)
      \<and> (case b_taskId req of None \<Rightarrow> False | Some t \<Rightarrow> isUUID t)
      \<and> b_durationMs req \<ge> 1
      \<and> b_durationHours req \<ge> 0
      \<and> (case b_activityScore req of None \<Rightarrow> True | Some a \<Rightarrow> 0 \<le> a \<and> a \<le> 100))"

text \<open>
  \<^verbatim>\<open>SELECT id FROM projects WHERE id = $1 AND organization_id = $2 AND deleted_at IS NULL\<close>,
  and the same on \<^verbatim>\<open>tasks\<close>.
\<close>

definition select_owned :: "db \<Rightarrow> resource list \<Rightarrow> string option list \<Rightarrow> storage_error + resource list" where
  "select_owned d rows ps =
     query d [1, 2] ps (\<lambda>vs.
       case vs of
         [i, org] \<Rightarrow>
           Inr (filter (\<lambda>r. sql_eq (r_id r) i \<and> sql_eq (Some (r_organization_id r)) org
                           \<and> r_deleted_at r = None) rows)
       | _ \<Rightarrow> Inl StorageError)"

text \<open>
  The insert names twelve columns with \<^verbatim>\<open>$1\<close> to \<^verbatim>\<open>$12\<close> in ascending order, so both
  adapters give each column its own parameter. The other columns take their defaults:
  the server schema draws the id with \<^verbatim>\<open>uuid_generate_v4()\<close> (the parameter \<open>new_id\<close>),
  the embedded schema has no default and leaves it NULL; \<^verbatim>\<open>CURRENT_TIMESTAMP\<close> is \<open>now\<close>.
  The server's \<^verbatim>\<open>DECIMAL(10, 2)\<close> and \<^verbatim>\<open>DECIMAL(5, 2)\<close> columns round to two places.
\<close>

definition numeric2 :: "rat \<Rightarrow> rat" where
  "numeric2 x = of_int (round (x * 100)) / 100"

definition new_time_log ::
  "db \<Rightarrow> string \<Rightarrow> int \<Rightarrow> user \<Rightarrow> time_request \<Rightarrow> string \<Rightarrow> string \<Rightarrow> time_log" where
  "new_time_log d new_id now u req projectId taskId =
     \<lparr>tl_id = (if backend d = Server then Some new_id else None),
      tl_organization_id = u_organizationId u,
      tl_user_id = u_id u,
      tl_project_id = projectId,
      tl_task_id = taskId,
      tl_start_time = b_startTime req,
      tl_end_time = b_endTime req,
      tl_duration_ms = b_durationMs req,
      tl_duration_hours =
        (if backend d = Server then numeric2 (b_durationHours req) else b_durationHours req),
      tl_paused_duration_ms = (case b_pausedDurationMs req of None \<Rightarrow> 0 | Some p \<Rightarrow> p),
      tl_activity_score =
        (let a = (case b_activityScore req of None \<Rightarrow> 0 | Some a \<Rightarrow> a)
         in if backend d = Server then numeric2 a else a),
      tl_description = (if truthy (b_description req) then b_description req else None),
      tl_is_billable = (case b_isBillable req of None \<Rightarrow> False | Some b \<Rightarrow> b),
      tl_status = Some ''pending'',
      tl_approved_by = None,
      tl_approved_at = None,
      tl_created_at = now,
      tl_updated_at = now,
      tl_deleted_at = None\<rparr>"

definition insert_time_log :: "db \<Rightarrow> time_log \<Rightarrow> storage_error + (time_log \<times> db)" where
  "insert_time_log d r =
     (if \<not> online d \<or> \<not> insert_ok d r then Inl StorageError
      else Inr (r, d\<lparr>time_logs := time_logs d @ [r]\<rparr>))"

definition post_time_handler ::
  "(string \<Rightarrow> bool) \<Rightarrow> db \<Rightarrow> string \<Rightarrow> int \<Rightarrow> user \<Rightarrow> time_request \<Rightarrow> reply \<times> db" where
  "post_time_handler isUUID d new_id now u req =
     (if \<not> time_request_valid isUUID req then (Fail 400 ''Validation failed'', d)
      else
        case (b_projectId req, b_taskId req) of
          (Some projectId, Some taskId) \<Rightarrow>
           (case select_owned d (projects d) [Some projectId, Some (u_organizationId u)] of
              Inl e \<Rightarrow> (Fail 500 ''Failed to create time log'', d)
            | Inr [] \<Rightarrow>
                (Fail 403 ''Project not found or does not belong to your organization'', d)
            | Inr (p # _) \<Rightarrow>
               (case select_owned d (tasks d) [Some taskId, Some (u_organizationId u)] of
                  Inl e \<Rightarrow> (Fail 500 ''Failed to create time log'', d)
                | Inr [] \<Rightarrow>
                    (Fail 403 ''Task not found or does not belong to your organization'', d)
                | Inr (t # _) \<Rightarrow>
                   (case insert_time_log d (new_time_log d new_id now u req projectId taskId) of
                      Inl e \<Rightarrow> (Fail 500 ''Failed to create time log'', d)
                    | Inr (timeLog, d') \<Rightarrow>
                        (Ok 201 ''Time log created successfully'' (Created timeLog), d'))))
        | _ \<Rightarrow> (Fail 400 ''Validation failed'', d))"

text \<open>The route behind authentication: the two middlewares, then the handler.\<close>

definition post_time ::
  "(string \<Rightarrow> bool) \<Rightarrow> (string \<Rightarrow> string option) \<Rightarrow> db \<Rightarrow> string \<Rightarrow> int \<Rightarrow> user
     \<Rightarrow> time_request \<Rightarrow> reply \<times> db" where
  "post_time isUUID uuid_in d new_id now u req =
     (case validateProject uuid_in d u req of
        Some r \<Rightarrow> (r, d)
      | None \<Rightarrow>
         (case validateTask uuid_in d u req of
            Some r \<Rightarrow> (r, d)
          | None \<Rightarrow> post_time_handler isUUID d new_id now u req))"

section \<open>Approval workflow (routes/timesheets.js)\<close>

record approve_body =
  timeLogId :: string
  action :: string

definition approve_body_valid :: "(string \<Rightarrow> bool) \<Rightarrow> approve_body \<Rightarrow> bool" where
  "approve_body_valid isUUID b = (isUUID (timeLogId b) \<and> action b \<in> {''approve'', ''reject''})"

text \<open>
  \<^verbatim>\<open>SELECT id, user_id, status FROM time_logs WHERE id = $1 AND organization_id = $2 AND
  deleted_at IS NULL\<close>.
\<close>

definition select_time_log :: "db \<Rightarrow> string option list \<Rightarrow> storage_error + time_log list" where
  "select_time_log d ps =
     query d [1, 2] ps (\<lambda>vs.
       case vs of
         [i, org] \<Rightarrow>
           Inr (filter (\<lambda>r. sql_eq (tl_id r) i \<and> sql_eq (Some (tl_organization_id r)) org
                           \<and> tl_deleted_at r = None) (time_logs d))
       | _ \<Rightarrow> Inl StorageError)"

text \<open>
  The two updates set the same four columns on the rows their \<^verbatim>\<open>WHERE\<close> selects and
  return the rows they changed. The statement fails as a whole when a changed row breaks the
  foreign key of \<^verbatim>\<open>approved_by\<close>; the other constraints are on columns it leaves alone.
\<close>

definition decide :: "string option \<Rightarrow> string option \<Rightarrow> int \<Rightarrow> time_log \<Rightarrow> time_log" where
  "decide s a now r =
     r\<lparr>tl_status := s, tl_approved_by := a, tl_approved_at := Some now, tl_updated_at := now\<rparr>"

definition update_where ::
  "db \<Rightarrow> (time_log \<Rightarrow> bool) \<Rightarrow> (time_log \<Rightarrow> time_log) \<Rightarrow> storage_error + (time_log list \<times> db)" where
  "update_where d hit f =
     (let changed = map f (filter hit (time_logs d)) in
      if \<not> list_all (fk_approved_by d) changed then Inl StorageError
      else Inr (changed, d\<lparr>time_logs := map (\<lambda>r. if hit r then f r else r) (time_logs d)\<rparr>))"

text \<open>
  \<^verbatim>\<open>UPDATE time_logs SET status = $1, approved_by = $2, approved_at = CURRENT_TIMESTAMP,
  updated_at = CURRENT_TIMESTAMP WHERE id = $3 RETURNING id, status, approved_at\<close>.
\<close>

definition update_one :: "db \<Rightarrow> int \<Rightarrow> string option list \<Rightarrow> storage_error + (time_log list \<times> db)" where
  "update_one d now ps =
     query d [1, 2, 3] ps (\<lambda>vs.
       case vs of
         [s, a, i] \<Rightarrow> update_where d (\<lambda>r. sql_eq (tl_id r) i) (decide s a now)
       | _ \<Rightarrow> Inl StorageError)"

text \<open>\<^verbatim>\<open>action === 'approve' ? 'approved' : 'rejected'\<close>, in both handlers.\<close>

definition new_status :: "string \<Rightarrow> string" where
  "new_status a = (if a = ''approve'' then ''approved'' else ''rejected'')"

definition put_approve ::
  "(string \<Rightarrow> bool) \<Rightarrow> db \<Rightarrow> int \<Rightarrow> user \<Rightarrow> approve_body \<Rightarrow> reply \<times> db" where
  "put_approve isUUID d now u b =
     (if \<not> approve_body_valid isUUID b then (Fail 400 ''Validation failed'', d)
      else
        case select_time_log d [Some (timeLogId b), Some (u_organizationId u)] of
          Inl e \<Rightarrow> (Fail 500 ''Failed to approve/reject time log'', d)
        | Inr [] \<Rightarrow> (Fail 404 ''Time log not found'', d)
        | Inr (timeLog # _) \<Rightarrow>
            if tl_status timeLog \<noteq> Some ''pending''
            then (Fail 400 (''Time log is already '' @ template (tl_status timeLog)), d)
            else
              let newStatus = new_status (action b) in
              case update_one d now [Some newStatus, Some (u_id u), Some (timeLogId b)] of
                Inl e \<Rightarrow> (Fail 500 ''Failed to approve/reject time log'', d)
              | Inr ([], d') \<Rightarrow> (Fail 500 ''Failed to approve/reject time log'', d')
              | Inr (row # _, d') \<Rightarrow>
                  (Ok 200 (''Time log '' @ action b @ ''d successfully'')
                     (Decided \<lparr>d_id = tl_id row, d_status = tl_status row,
                               d_approvedAt = tl_approved_at row,
                               d_approvedBy_id = u_id u,
                               d_approvedBy_name = u_firstName u @ '' '' @ u_lastName u\<rparr>),
                   d'))"

text \<open>
  A sequential run of calls of the route, each on the database the one before left, with
  the replies in order.
\<close>

fun run_approvals ::
  "(string \<Rightarrow> bool) \<Rightarrow> db \<Rightarrow> (int \<times> user \<times> approve_body) list \<Rightarrow> reply list \<times> db" where
  "run_approvals isUUID d [] = ([], d)"
| "run_approvals isUUID d ((now, u, b) # calls) =
     (let (r, d') = put_approve isUUID d now u b;
          (rs, d'') = run_approvals isUUID d' calls
      in (r # rs, d''))"

definition is_fail :: "reply \<Rightarrow> bool" where
  "is_fail r = (case r of Fail c m \<Rightarrow> True | Ok c m x \<Rightarrow> False)"

record bulk_body =
  timeLogIds :: "string list"
  bulk_action :: string

text \<open>
  The validators of the bulk route: \<^verbatim>\<open>body('timeLogIds').isArray().notEmpty()\<close>,
  \<^verbatim>\<open>body('timeLogIds.*').isUUID()\<close> and the test of \<^verbatim>\<open>action\<close>. The body is one whose
  \<^verbatim>\<open>timeLogIds\<close> is an array of strings. express-validator applies \<^verbatim>\<open>notEmpty()\<close> to
  each element of an array, so the empty array passes; an element that is the empty string
  does not.
\<close>

definition bulk_body_valid :: "(string \<Rightarrow> bool) \<Rightarrow> bulk_body \<Rightarrow> bool" where
  "bulk_body_valid isUUID b =
     (list_all (\<lambda>i. i \<noteq> []) (timeLogIds b) \<and> list_all isUUID (timeLogIds b)
      \<and> bulk_action b \<in> {''approve'', ''reject''})"

text \<open>
  The verification statement is built for \<open>n\<close> ids as
  \<^verbatim>\<open>SELECT id, status FROM time_logs WHERE id IN ($2, ..., $n+1) AND organization_id = $1
  AND deleted_at IS NULL\<close> and run with the parameters \<^verbatim>\<open>[organizationId, ...timeLogIds]\<close>:
  in the text the \<open>n\<close> placeholders of the list come first and \<^verbatim>\<open>$1\<close> last. For no id
  at all the text has the empty list \<^verbatim>\<open>IN ()\<close>, which PostgreSQL rejects as a syntax
  error and SQLite accepts, finding no row.
\<close>

definition select_batch :: "db \<Rightarrow> nat \<Rightarrow> string option list \<Rightarrow> storage_error + time_log list" where
  "select_batch d n ps =
     query d (map (\<lambda>i. i + 2) [0..<n] @ [1]) ps (\<lambda>vs.
       if n = 0 \<and> backend d = Server then Inl StorageError
       else
         case rev vs of
           org # rids \<Rightarrow>
             Inr (filter (\<lambda>r. (\<exists>i \<in> set rids. sql_eq (tl_id r) i)
                             \<and> sql_eq (Some (tl_organization_id r)) org
                             \<and> tl_deleted_at r = None) (time_logs d))
         | [] \<Rightarrow> Inl StorageError)"

text \<open>
  The update is built for \<open>n\<close> pending ids as
  \<^verbatim>\<open>UPDATE time_logs SET status = $1, approved_by = $n+2, approved_at = CURRENT_TIMESTAMP,
  updated_at = CURRENT_TIMESTAMP WHERE id IN ($2, ..., $n+1) AND status = 'pending'
  RETURNING id, status\<close> and run with \<^verbatim>\<open>[newStatus, req.user.id, ...pendingIds]\<close>.
\<close>

definition update_batch :: "db \<Rightarrow> int \<Rightarrow> nat \<Rightarrow> string option list \<Rightarrow> storage_error + (time_log list \<times> db)" where
  "update_batch d now n ps =
     query d ([1, n + 2] @ map (\<lambda>i. i + 2) [0..<n]) ps (\<lambda>vs.
       case vs of
         s # a # ids \<Rightarrow>
           update_where d
             (\<lambda>r. (\<exists>i \<in> set ids. sql_eq (tl_id r) i) \<and> tl_status r = Some ''pending'')
             (decide s a now)
       | _ \<Rightarrow> Inl StorageError)"

definition put_bulk_approve ::
  "(string \<Rightarrow> bool) \<Rightarrow> db \<Rightarrow> int \<Rightarrow> user \<Rightarrow> bulk_body \<Rightarrow> reply \<times> db" where
  "put_bulk_approve isUUID d now u b =
     (if \<not> bulk_body_valid isUUID b then (Fail 400 ''Validation failed'', d)
      else
        case select_batch d (length (timeLogIds b))
               (Some (u_organizationId u) # map Some (timeLogIds b)) of
          Inl e \<Rightarrow> (Fail 500 ''Failed to bulk approve/reject time logs'', d)
        | Inr rows \<Rightarrow>
            if length rows \<noteq> length (timeLogIds b)
            then (Fail 400
                    ''Some time logs were not found or do not belong to your organization'', d)
            else
              let pendingLogs = filter (\<lambda>log. tl_status log = Some ''pending'') rows in
              if length pendingLogs = 0
              then (Fail 400 ''No pending time logs found in the selected entries'', d)
              else
                let newStatus = new_status (bulk_action b);
                    pendingIds = map tl_id pendingLogs
                in
                case update_batch d now (length pendingIds)
                       ([Some newStatus, Some (u_id u)] @ pendingIds) of
                  Inl e \<Rightarrow> (Fail 500 ''Failed to bulk approve/reject time logs'', d)
                | Inr (updated, d') \<Rightarrow>
                    (Ok 200 (decimal (length updated) @ '' time log(s) '' @ bulk_action b
                             @ ''d successfully'')
                       (Bulk \<lparr>approved = length updated,
                              total = length (timeLogIds b),
                              skipped = length (timeLogIds b) - length pendingLogs\<rparr>),
                     d'))"

text \<open>
  What the verification is for: an id passes when a row that is not deleted has it in the
  actor's organization; \<open>listed\<close> are the rows a list of ids names in that sense.
\<close>

definition owned_alive :: "db \<Rightarrow> user \<Rightarrow> string \<Rightarrow> bool" where
  "owned_alive d u i =
     (\<exists>r \<in> set (time_logs d). tl_id r = Some i
        \<and> tl_organization_id r = u_organizationId u \<and> tl_deleted_at r = None)"

definition listed :: "db \<Rightarrow> user \<Rightarrow> string list \<Rightarrow> time_log list" where
  "listed d u ids =
     filter (\<lambda>r. (\<exists>j \<in> set ids. tl_id r = Some j)
                  \<and> tl_organization_id r = u_organizationId u \<and> tl_deleted_at r = None)
       (time_logs d)"

section \<open>Reading a screenshot (routes/screenshots.js, GET /screenshot/:id)\<close>

text \<open>
  \<^verbatim>\<open>SELECT ... FROM screenshots WHERE id = $1 AND organization_id = $2 AND deleted_at IS
  NULL\<close>. The id is the path parameter, which no validator has seen: the server store reads
  it with \<open>uuid_in\<close>, as in the guard. The route writes nothing.
\<close>

definition select_screenshot ::
  "(string \<Rightarrow> string option) \<Rightarrow> db \<Rightarrow> string list \<Rightarrow> storage_error + screenshot list" where
  "select_screenshot uuid_in d ps =
     query d [1, 2] ps (\<lambda>vs.
       case vs of
         [i, org] \<Rightarrow>
           (case id_param (backend d) uuid_in (map s_id (screenshots d)) i of
              None \<Rightarrow> Inl StorageError
            | Some k \<Rightarrow>
                Inr (filter (\<lambda>r. s_id r = Some k \<and> s_organization_id r = org
                                \<and> s_deleted_at r = None) (screenshots d)))
       | _ \<Rightarrow> Inl StorageError)"

definition get_screenshot ::
  "(string \<Rightarrow> string option) \<Rightarrow> db \<Rightarrow> user \<Rightarrow> string \<Rightarrow> reply \<times> db" where
  "get_screenshot uuid_in d u ident =
     (case select_screenshot uuid_in d [ident, u_organizationId u] of
        Inl e \<Rightarrow> (Fail 500 ''Failed to get screenshot'', d)
      | Inr [] \<Rightarrow> (Fail 404 ''Screenshot not found'', d)
      | Inr (screenshot # _) \<Rightarrow> (Ok 200 [] (Shot screenshot), d))"

section \<open>Web activity statistics (routes/reports.js, GET /web-stats)\<close>

text \<open>
  The route is registered as \<^verbatim>\<open>router.get('/web-stats', async (req, res) => ...)\<close>, with
  no middleware in front, and its handler never reads \<^verbatim>\<open>req\<close>. A request is modelled by
  what identifies its sender, the \<^verbatim>\<open>Authorization\<close> header.

  The day runs from local midnight (\<^verbatim>\<open>setHours(0, 0, 0, 0)\<close>) to 23:59:59.999; \<open>tz\<close> is the
  offset of the server's zone in milliseconds, taken as constant over the day. The three
  statements have \<^verbatim>\<open>$1\<close>, \<^verbatim>\<open>$2\<close> in ascending order. \<^verbatim>\<open>GROUP BY\<close> is modelled by one
  group per distinct key with its count, \<^verbatim>\<open>ORDER BY visit_count DESC LIMIT 5\<close> by a stable
  descending sort and \<open>take 5\<close>; among groups of equal count the engine is free in its
  order, and the model takes the order of first occurrence.
  \<^verbatim>\<open>Math.round((count / total) * 100)\<close> is floating-point arithmetic and enters as the
  parameter \<open>percent\<close>.
\<close>

record request =
  authorization :: "string option"

definition start_of_day :: "int \<Rightarrow> int \<Rightarrow> int" where
  "start_of_day tz now = now - ((now + tz) mod 86400000)"

definition select_day :: "db \<Rightarrow> int list \<Rightarrow> storage_error + web_log list" where
  "select_day d ps =
     query d [1, 2] ps (\<lambda>vs.
       case vs of
         [a, b] \<Rightarrow> Inr (filter (\<lambda>w. w_timestamp w \<ge> a \<and> w_timestamp w \<le> b) (web_logs d))
       | _ \<Rightarrow> Inl StorageError)"

definition group_count :: "'k list \<Rightarrow> ('k \<times> nat) list" where
  "group_count ks = map (\<lambda>k. (k, count_list ks k)) (remdups ks)"

definition top5 :: "('k \<times> nat) list \<Rightarrow> ('k \<times> nat) list" where
  "top5 groups = take 5 (sort_key (\<lambda>g. - int (snd g)) groups)"

definition web_stats_handler :: "(nat \<Rightarrow> nat \<Rightarrow> nat) \<Rightarrow> int \<Rightarrow> db \<Rightarrow> int \<Rightarrow> reply \<times> db" where
  "web_stats_handler percent tz d now =
     (let today = start_of_day tz now;
          todayEnd = today + 86399999
      in case select_day d [today, todayEnd] of
           Inl e \<Rightarrow> (Fail 500 ''Failed to get web stats'', d)
         | Inr rows \<Rightarrow>
             let activityBreakdown = group_count (map w_activity_type rows);
                 total = sum_list (map snd activityBreakdown);
                 breakdown = (\<lambda>t. case map_of activityBreakdown t of
                                      None \<Rightarrow> 0
                                    | Some count \<Rightarrow> if total > 0 then percent count total else 0);
                 topSites = top5 (group_count (map (\<lambda>w. (w_domain w, w_activity_type w)) rows));
                 topDistractions =
                   top5 (group_count (map w_domain
                     (filter (\<lambda>w. w_activity_type w = ''Unproductive'') rows)))
             in (Ok 200 []
                   (Stats \<lparr>ws_productive = breakdown ''Productive'',
                           ws_unproductive = breakdown ''Unproductive'',
                           ws_meeting = breakdown ''Meeting'',
                           ws_total = total,
                           ws_topSites = map (\<lambda>((dom, ty), n). (dom, n, ty)) topSites,
                           ws_topDistractions = topDistractions\<rparr>),
                 d))"

definition get_web_stats ::
  "(nat \<Rightarrow> nat \<Rightarrow> nat) \<Rightarrow> int \<Rightarrow> db \<Rightarrow> int \<Rightarrow> request \<Rightarrow> reply \<times> db" where
  "get_web_stats percent tz d now req = web_stats_handler percent tz d now"

text \<open>
  The \<^verbatim>\<open>GET\<close> routes the routers register (server.js mounts them under \<^verbatim>\<open>/api\<close>),
  each with the middleware in front of its handler.
\<close>

definition get_routes :: "(string \<times> string list) list" where
  "get_routes =
     [(''/api/auth/me'', [''authenticate'']),
      (''/api/log/time'', [''authenticate'', ''enforceOrganizationAccess'']),
      (''/api/log/screenshot/:id'', [''authenticate'', ''enforceOrganizationAccess'']),
      (''/api/log/screenshots'', [''authenticate'', ''enforceOrganizationAccess'']),
      (''/api/report/timeline'', [''authenticate'', ''enforceOrganizationAccess'']),
      (''/api/report/wellness'', [''authenticate'', ''enforceOrganizationAccess'']),
      (''/api/report/web-stats'', []),
      (''/api/export/payroll'', [''authenticate'', ''enforceOrganizationAccess'', ''authorize'']),
      (''/api/timesheets/pending'',
         [''authenticate'', ''enforceOrganizationAccess'', ''authorize''])]"

section \<open>The encrypting write path and the sync reader (config/database-sqlite.js)\<close>

text \<open>
  \<open>insertTimeLog\<close> and \<open>getPendingSyncLogs\<close> handle a row as a JavaScript object and
  build their statements from \<^verbatim>\<open>Object.keys\<close>, so here a row is the list of its fields in
  order, with distinct keys as in an object, and a value is what SQLite holds: NULL, text or
  a number. The embedded store, as this path meets it: the ids of the rows of the four
  tables that \<^verbatim>\<open>time_logs\<close> refers to, and the rows of \<^verbatim>\<open>time_logs\<close>, each with all
  nineteen columns.
\<close>

datatype cell = Null | Text string | Number rat

type_synonym obj = "(string \<times> cell) list"

record local_store =
  ls_organizations :: "string list"
  ls_users :: "string list"
  ls_projects :: "string list"
  ls_tasks :: "string list"
  ls_time_logs :: "obj list"

definition field :: "obj \<Rightarrow> string \<Rightarrow> cell" where
  "field r f = (case map_of r f of Some v \<Rightarrow> v | None \<Rightarrow> Null)"

definition time_log_columns :: "string list" where
  "time_log_columns =
     [''id'', ''organization_id'', ''user_id'', ''project_id'', ''task_id'',
      ''start_time'', ''end_time'', ''duration_ms'', ''duration_hours'',
      ''paused_duration_ms'', ''activity_score'', ''description'', ''is_billable'',
      ''status'', ''approved_by'', ''approved_at'', ''created_at'', ''updated_at'',
      ''deleted_at'']"

text \<open>The defaults of createSchema; \<^verbatim>\<open>CURRENT_TIMESTAMP\<close> is \<open>now\<close>.\<close>

definition column_default :: "cell \<Rightarrow> string \<Rightarrow> cell" where
  "column_default now col =
     (if col = ''paused_duration_ms'' \<or> col = ''activity_score'' \<or> col = ''is_billable''
      then Number 0
      else if col = ''status'' then Text ''pending''
      else if col = ''created_at'' \<or> col = ''updated_at'' then now
      else Null)"

text \<open>
  The row an insert builds. A column that the statement names takes the value given,
  converted to the declared type of the column: SQLite's type affinity, the parameter
  \<open>affinity\<close>, from the column and the value to the value stored. Any other column takes
  its default.
\<close>

definition stored_row :: "(string \<Rightarrow> cell \<Rightarrow> cell) \<Rightarrow> cell \<Rightarrow> obj \<Rightarrow> obj" where
  "stored_row affinity now data =
     map (\<lambda>col. (col, case map_of data col of
                        Some v \<Rightarrow> affinity col v
                      | None \<Rightarrow> column_default now col))
       time_log_columns"

text \<open>
  The constraints that createSchema puts on \<^verbatim>\<open>time_logs\<close>. Eight columns are
  \<^verbatim>\<open>NOT NULL\<close>. \<^verbatim>\<open>id TEXT PRIMARY KEY\<close>: no two rows share an id, and SQLite lets such an
  id be NULL. The four foreign keys \<^verbatim>\<open>FOREIGN KEY (organization_id) REFERENCES
  organizations(id)\<close>, \<^verbatim>\<open>(user_id) REFERENCES users(id)\<close>, \<^verbatim>\<open>(project_id) REFERENCES
  projects(id)\<close>, \<^verbatim>\<open>(task_id) REFERENCES tasks(id)\<close> are enforced, because
  \<^verbatim>\<open>initializeDatabase\<close> runs \<^verbatim>\<open>PRAGMA foreign_keys = ON\<close> on the connection: the
  column is NULL or holds the id of a row of the table it refers to.
\<close>

definition not_null_columns :: "string list" where
  "not_null_columns =
     [''organization_id'', ''user_id'', ''project_id'', ''task_id'', ''start_time'',
      ''end_time'', ''duration_ms'', ''duration_hours'']"

definition fk_holds :: "string list \<Rightarrow> cell \<Rightarrow> bool" where
  "fk_holds ids v = (case v of Null \<Rightarrow> True | Text s \<Rightarrow> s \<in> set ids | Number n \<Rightarrow> False)"

definition row_ok :: "local_store \<Rightarrow> obj \<Rightarrow> bool" where
  "row_ok st r =
     (list_all (\<lambda>col. field r col \<noteq> Null) not_null_columns
      \<and> (field r ''id'' = Null
           \<or> field r ''id'' \<notin> set (map (\<lambda>x. field x ''id'') (ls_time_logs st)))
      \<and> fk_holds (ls_organizations st) (field r ''organization_id'')
      \<and> fk_holds (ls_users st) (field r ''user_id'')
      \<and> fk_holds (ls_projects st) (field r ''project_id'')
      \<and> fk_holds (ls_tasks st) (field r ''task_id''))"

text \<open>
  \<^verbatim>\<open>execute\<close> of \<^verbatim>\<open>INSERT INTO time_logs (<keys>) VALUES (?, ...)\<close>. The statement fails
  on a key that is no column, and when the row breaks a constraint.
\<close>

definition insert_row ::
  "(string \<Rightarrow> cell \<Rightarrow> cell) \<Rightarrow> cell \<Rightarrow> local_store \<Rightarrow> obj \<Rightarrow> storage_error + local_store" where
  "insert_row affinity now st data =
     (if set (map fst data) \<subseteq> set time_log_columns
         \<and> row_ok st (stored_row affinity now data)
      then Inr (st\<lparr>ls_time_logs := ls_time_logs st @ [stored_row affinity now data]\<rparr>)
      else Inl StorageError)"

subsection \<open>The field codec\<close>

text \<open>
  The cipher under the configured key is the pair \<open>encrypt\<close>, \<open>decrypt\<close>; a decryption
  that fails gives a \<open>DecryptionError\<close>.
\<close>

datatype decryption_error = DecryptionError

record cipher =
  encrypt :: "cell \<Rightarrow> cell"
  decrypt :: "cell \<Rightarrow> decryption_error + cell"

text \<open>
  Modelled from the spec: \<^verbatim>\<open>encryptFields\<close> of services/crypto, which the store imports
  and which is not among the sources. The spec (4.1): \<^verbatim>\<open>encryptFields(record,
  fieldNames)\<close> replaces each named field's value with its ciphertext. A field that is NULL
  is left NULL, and a named field that the record does not have is not added.
\<close>

definition encryptFields :: "cipher \<Rightarrow> obj \<Rightarrow> string list \<Rightarrow> obj" where
  "encryptFields c record fieldNames =
     map (\<lambda>(f, v). if f \<in> set fieldNames \<and> v \<noteq> Null then (f, encrypt c v) else (f, v)) record"

text \<open>
  Modelled from the spec: \<^verbatim>\<open>decryptFields\<close> of services/crypto, absent like
  \<^verbatim>\<open>encryptFields\<close>. The spec (4.1): \<^verbatim>\<open>decryptFields(record, fieldNames)\<close> is the exact
  inverse of \<^verbatim>\<open>encryptFields\<close>, and a decryption that fails propagates as a
  \<open>DecryptionError\<close>. A field that is NULL is left NULL: \<^verbatim>\<open>getPendingSyncScreenshots\<close>
  compares a decrypted \<^verbatim>\<open>time_log_id\<close> with \<^verbatim>\<open>null\<close>.
\<close>

fun decryptFields :: "cipher \<Rightarrow> obj \<Rightarrow> string list \<Rightarrow> decryption_error + obj" where
  "decryptFields c [] fieldNames = Inr []"
| "decryptFields c ((f, v) # record) fieldNames =
     (case (if f \<in> set fieldNames \<and> v \<noteq> Null then decrypt c v else Inr v) of
        Inl e \<Rightarrow> Inl e
      | Inr p \<Rightarrow>
          (case decryptFields c record fieldNames of
             Inl e \<Rightarrow> Inl e
           | Inr rest \<Rightarrow> Inr ((f, p) # rest)))"

subsection \<open>insertTimeLog and getPendingSyncLogs\<close>

definition fieldsToEncrypt :: "string list" where
  "fieldsToEncrypt = [''project_id'', ''start_time'', ''end_time'', ''activity_score'']"

definition fieldsToDecrypt :: "string list" where
  "fieldsToDecrypt = [''project_id'', ''start_time'', ''end_time'', ''activity_score'']"

text \<open>
  The object returned is \<^verbatim>\<open>{...encryptedData, id: timeLogData.id || lastID.toString()}\<close>;
  \<^verbatim>\<open>lastID\<close>, the rowid of the new row, is the number of rows, none being deleted
  physically. An error of \<^verbatim>\<open>execute\<close> is logged and thrown again.
\<close>

definition cell_truthy :: "cell \<Rightarrow> bool" where
  "cell_truthy v = (case v of Null \<Rightarrow> False | Text s \<Rightarrow> s \<noteq> [] | Number n \<Rightarrow> n \<noteq> 0)"

definition with_id :: "obj \<Rightarrow> cell \<Rightarrow> obj" where
  "with_id r v =
     (if ''id'' \<in> set (map fst r)
      then map (\<lambda>(f, x). if f = ''id'' then (f, v) else (f, x)) r
      else r @ [(''id'', v)])"

definition insertTimeLog ::
  "cipher \<Rightarrow> (string \<Rightarrow> cell \<Rightarrow> cell) \<Rightarrow> cell \<Rightarrow> local_store \<Rightarrow> obj
     \<Rightarrow> storage_error + (obj \<times> local_store)" where
  "insertTimeLog c affinity now st timeLogData =
     (let encryptedData = encryptFields c timeLogData fieldsToEncrypt in
      case insert_row affinity now st encryptedData of
        Inl e \<Rightarrow> Inl e
      | Inr st' \<Rightarrow>
          Inr (with_id encryptedData
                 (if cell_truthy (field timeLogData ''id'') then field timeLogData ''id''
                  else Text (decimal (length (ls_time_logs st')))),
               st'))"

text \<open>
  The options of the reader, with the defaults 100 and 0 of its destructuring; limit and
  offset are not negative. SQLite orders NULL before numbers before text, numbers by value
  and text by its bytes: \<open>order_key\<close>. \<^verbatim>\<open>ORDER BY created_at DESC\<close> leaves the order of
  equal keys open; the model takes the reverse of a stable ascending sort. The \<^verbatim>\<open>SELECT\<close>
  lists every column but \<^verbatim>\<open>deleted_at\<close>.
\<close>

record sync_options =
  so_organizationId :: "string option"
  so_limit :: "nat option"
  so_offset :: "nat option"

definition order_key :: "cell \<Rightarrow> nat \<times> rat \<times> nat list" where
  "order_key v =
     (case v of Null \<Rightarrow> (0, 0, []) | Number r \<Rightarrow> (1, r, []) | Text s \<Rightarrow> (2, 0, map of_char s))"

definition select_pending :: "obj list \<Rightarrow> sync_options \<Rightarrow> obj list" where
  "select_pending table opts =
     (let alive = filter (\<lambda>r. field r ''deleted_at'' = Null
                    \<and> (truthy (so_organizationId opts) \<longrightarrow>
                         field r ''organization_id'' = Text (the (so_organizationId opts))))
                    table;
          ordered = rev (sort_key (\<lambda>r. order_key (field r ''created_at'')) alive);
          page = take (case so_limit opts of None \<Rightarrow> 100 | Some l \<Rightarrow> l)
                   (drop (case so_offset opts of None \<Rightarrow> 0 | Some k \<Rightarrow> k) ordered)
      in map (filter (\<lambda>(f, v). f \<noteq> ''deleted_at'')) page)"

fun collect :: "('e + 'a) list \<Rightarrow> 'e + 'a list" where
  "collect [] = Inr []"
| "collect (x # xs) =
     (case x of
        Inl e \<Rightarrow> Inl e
      | Inr a \<Rightarrow> (case collect xs of Inl e \<Rightarrow> Inl e | Inr as \<Rightarrow> Inr (a # as)))"

definition getPendingSyncLogs ::
  "cipher \<Rightarrow> local_store \<Rightarrow> sync_options \<Rightarrow> decryption_error + obj list" where
  "getPendingSyncLogs c st opts =
     collect (map (\<lambda>row. decryptFields c row fieldsToDecrypt)
                (select_pending (ls_time_logs st) opts))"

section \<open>The text of a statement and its placeholders\<close>

text \<open>
  The embedded adapter's \<^verbatim>\<open>text.replace(/\$(\d+)/g, '?')\<close>: every \<^verbatim>\<open>$\<close> followed by
  at least one digit is replaced, with all the digits that follow, by one \<^verbatim>\<open>?\<close>; the
  number is dropped. \<open>placeholders\<close> reads the numbers of the same occurrences, in the
  order of the text: the list that \<open>bound\<close> takes.
\<close>

definition is_digit :: "char \<Rightarrow> bool" where
  "is_digit c = (48 \<le> (of_char c :: nat) \<and> (of_char c :: nat) \<le> 57)"

definition digits_value :: "string \<Rightarrow> nat" where
  "digits_value ds = fold (\<lambda>c n. 10 * n + ((of_char c :: nat) - 48)) ds 0"

function sqliteQuery :: "string \<Rightarrow> string" where
  "sqliteQuery [] = []"
| "sqliteQuery (c # cs) =
     (if c = CHR ''$'' \<and> cs \<noteq> [] \<and> is_digit (hd cs)
      then CHR ''?'' # sqliteQuery (dropWhile is_digit cs)
      else c # sqliteQuery cs)"
  by pat_completeness auto
termination
  by (relation "measure length") (auto simp: less_Suc_eq_le length_dropWhile_le)

function placeholders :: "string \<Rightarrow> nat list" where
  "placeholders [] = []"
| "placeholders (c # cs) =
     (if c = CHR ''$'' \<and> cs \<noteq> [] \<and> is_digit (hd cs)
      then digits_value (takeWhile is_digit cs) # placeholders (dropWhile is_digit cs)
      else placeholders cs)"
  by pat_completeness auto
termination
  by (relation "measure length") (auto simp: less_Suc_eq_le length_dropWhile_le)

text \<open>
  The texts the bulk route builds for \<open>n\<close> ids, with \<^verbatim>\<open>Array.prototype.join\<close>; line breaks
  and indentation of the template are written as single blanks.
\<close>

fun join :: "string \<Rightarrow> string list \<Rightarrow> string" where
  "join sep [] = []"
| "join sep [x] = x"
| "join sep (x # y # ys) = x @ sep @ join sep (y # ys)"

definition id_placeholders :: "nat \<Rightarrow> string" where
  "id_placeholders n = join '','' (map (\<lambda>i. CHR ''$'' # decimal (i + 2)) [0..<n])"

definition verifyQuery :: "nat \<Rightarrow> string" where
  "verifyQuery n =
     ''SELECT id, status FROM time_logs WHERE id IN ('' @ id_placeholders n
     @ '') AND organization_id = $1 AND deleted_at IS NULL''"

definition updateQuery :: "nat \<Rightarrow> string" where
  "updateQuery n =
     ''UPDATE time_logs SET status = $1, approved_by = $'' @ decimal (n + 2)
     @ '', approved_at = CURRENT_TIMESTAMP, updated_at = CURRENT_TIMESTAMP WHERE id IN (''
     @ id_placeholders n @ '') AND status = 'pending' RETURNING id, status''"

section \<open>The role gate (middleware/auth.js)\<close>

text \<open>
  \<^verbatim>\<open>const authorize = (...allowedRoles) => (req, res, next) => ...\<close> collects its
  arguments in the array \<open>allowedRoles\<close> and admits a user when
  \<^verbatim>\<open>allowedRoles.includes(req.user.role)\<close>. \<^verbatim>\<open>includes\<close> compares a string with a string
  by value and never finds a string equal to an array. The argument values are strings or
  arrays; \<open>js_to_string\<close> is what \<^verbatim>\<open>join\<close> makes of an element. Every route of the
  repository that has the gate calls it as \<^verbatim>\<open>authorize(['admin', 'manager'])\<close>, with one
  argument, an array: \<open>route_roles\<close>.
\<close>

datatype js_value = JStr string | JArr "js_value list"

fun js_to_string :: "js_value \<Rightarrow> string" where
  "js_to_string (JStr s) = s"
| "js_to_string (JArr xs) = join '','' (map js_to_string xs)"

definition authorize :: "js_value list \<Rightarrow> user option \<Rightarrow> reply option" where
  "authorize allowedRoles req_user =
     (case req_user of
        None \<Rightarrow> Some (Fail 401 ''Authentication required'')
      | Some u \<Rightarrow>
          if JStr (u_role u) \<notin> set allowedRoles
          then Some (Fail 403 (''Insufficient permissions. Required role: ''
                               @ join '' or '' (map js_to_string allowedRoles)))
          else None)"

definition route_roles :: "js_value list" where
  "route_roles = [JArr [JStr ''admin'', JStr ''manager'']]"

text \<open>The approve routes as registered: the gate, then the handler.\<close>

definition put_approve_route ::
  "(string \<Rightarrow> bool) \<Rightarrow> db \<Rightarrow> int \<Rightarrow> user \<Rightarrow> approve_body \<Rightarrow> reply \<times> db" where
  "put_approve_route isUUID d now u b =
     (case authorize route_roles (Some u) of
        Some r \<Rightarrow> (r, d)
      | None \<Rightarrow> put_approve isUUID d now u b)"

definition put_bulk_approve_route ::
  "(string \<Rightarrow> bool) \<Rightarrow> db \<Rightarrow> int \<Rightarrow> user \<Rightarrow> bulk_body \<Rightarrow> reply \<times> db" where
  "put_bulk_approve_route isUUID d now u b =
     (case authorize route_roles (Some u) of
        Some r \<Rightarrow> (r, d)
      | None \<Rightarrow> put_bulk_approve isUUID d now u b)"

section \<open>A small database for instances\<close>

text \<open>
  Two organizations; Ann administers the first, Bob manages the second. The first owns a
  project, a task, a screenshot and three time logs: \<open>A\<close> and \<open>C\<close> pending, \<open>B\<close>
  approved by Ann at time 5. Three web logs, two of them on the second day of the epoch.
  \<open>any_uuid\<close> stands for a validator that accepts the ids used.
\<close>

definition any_uuid :: "string \<Rightarrow> bool" where
  "any_uuid s = True"

definition ann :: user where
  "ann = \<lparr>u_id = ''ann'', u_organizationId = ''orgA'', u_firstName = ''Ann'',
          u_lastName = ''Lee'', u_role = ''admin''\<rparr>"

definition bob :: user where
  "bob = \<lparr>u_id = ''bob'', u_organizationId = ''orgB'', u_firstName = ''Bob'',
          u_lastName = ''Ray'', u_role = ''manager''\<rparr>"

definition demo_log :: "string \<Rightarrow> string \<Rightarrow> time_log" where
  "demo_log i st =
     \<lparr>tl_id = Some i, tl_organization_id = ''orgA'', tl_user_id = ''ann'',
      tl_project_id = ''P1'', tl_task_id = ''T1'', tl_start_time = 10, tl_end_time = 20,
      tl_duration_ms = 10, tl_duration_hours = 1, tl_paused_duration_ms = 0,
      tl_activity_score = 0, tl_description = None, tl_is_billable = False,
      tl_status = Some st,
      tl_approved_by = (if st = ''pending'' then None else Some ''ann''),
      tl_approved_at = (if st = ''pending'' then None else Some 5),
      tl_created_at = 1, tl_updated_at = 1, tl_deleted_at = None\<rparr>"

definition demo_shot :: screenshot where
  "demo_shot =
     \<lparr>s_id = Some ''S1'', s_organization_id = ''orgA'', s_user_id = ''ann'',
      s_time_log_id = None, s_s3_key = ''k'', s_s3_url = ''url'', s_file_size = Some 7,
      s_mime_type = Some ''image/png'', s_captured_at = 3, s_created_at = 3,
      s_deleted_at = None\<rparr>"

definition demo_db :: "backend \<Rightarrow> db" where
  "demo_db b =
     \<lparr>backend = b, online = True, organizations = [''orgA'', ''orgB''],
      users = [\<lparr>r_id = Some ''ann'', r_organization_id = ''orgA'', r_deleted_at = None\<rparr>,
               \<lparr>r_id = Some ''bob'', r_organization_id = ''orgB'', r_deleted_at = None\<rparr>],
      projects = [\<lparr>r_id = Some ''P1'', r_organization_id = ''orgA'', r_deleted_at = None\<rparr>],
      tasks = [\<lparr>r_id = Some ''T1'', r_organization_id = ''orgA'', r_deleted_at = None\<rparr>],
      time_logs = [demo_log ''A'' ''pending'', demo_log ''B'' ''approved'',
                   demo_log ''C'' ''pending''],
      screenshots = [demo_shot],
      web_logs =
        [\<lparr>w_id = Some ''w1'', w_domain = ''docs.example'', w_url = None,
          w_activity_type = ''Productive'', w_timestamp = 86400000 + 10, w_created_at = 0\<rparr>,
         \<lparr>w_id = Some ''w2'', w_domain = ''video.example'', w_url = None,
          w_activity_type = ''Unproductive'', w_timestamp = 86400000 + 20, w_created_at = 0\<rparr>,
         \<lparr>w_id = Some ''w3'', w_domain = ''docs.example'', w_url = None,
          w_activity_type = ''Productive'', w_timestamp = 5, w_created_at = 0\<rparr>]\<rparr>"

text \<open>
  \<open>demo_uuid_in\<close> stands for the engine's uuid input on the texts used here: it rejects a
  text with a blank, and prints a text written in braces without them. \<open>clash_db\<close> is an
  embedded store whose one time log, of the first organization, has as its id the text that
  is the id of the second organization.
\<close>

definition demo_uuid_in :: "string \<Rightarrow> string option" where
  "demo_uuid_in s =
     (if CHR '' '' \<in> set s then None
      else Some (filter (\<lambda>c. c \<noteq> CHR ''{'' \<and> c \<noteq> CHR ''}'') s))"

definition clash_db :: db where
  "clash_db = (demo_db Embedded)\<lparr>time_logs := [demo_log ''orgB'' ''pending'']\<rparr>"

text \<open>
  For the write path of the embedded store: a cipher on the values used here, which marks a
  text and writes a whole number in decimal behind a mark; an affinity that leaves a text in
  a text column and a number in a numeric column as they are; a store with one
  organization, user, project and task and no time log; and the entry of the spec's example
  of a sync read, with a score.
\<close>

definition demo_cipher :: cipher where
  "demo_cipher =
     \<lparr>encrypt = (\<lambda>v. case v of
                        Null \<Rightarrow> Null
                      | Text s \<Rightarrow> Text (''enc:'' @ s)
                      | Number r \<Rightarrow> Text (''enc#'' @ decimal (nat \<lfloor>r\<rfloor>))),
      decrypt = (\<lambda>v. case v of
                        Text s \<Rightarrow>
                          if take 4 s = ''enc:'' then Inr (Text (drop 4 s))
                          else if take 4 s = ''enc#''
                          then Inr (Number (of_nat (digits_value (drop 4 s))))
                          else Inl DecryptionError
                      | _ \<Rightarrow> Inl DecryptionError)\<rparr>"

definition demo_affinity :: "string \<Rightarrow> cell \<Rightarrow> cell" where
  "demo_affinity col v = v"

definition sync_store :: local_store where
  "sync_store =
     \<lparr>ls_organizations = [''orgA''], ls_users = [''ann''], ls_projects = [''P1''],
      ls_tasks = [''T1''], ls_time_logs = []\<rparr>"

definition sync_entry :: obj where
  "sync_entry =
     [(''id'', Text ''L1''), (''organization_id'', Text ''orgA''), (''user_id'', Text ''ann''),
      (''project_id'', Text ''P1''), (''task_id'', Text ''T1''),
      (''start_time'', Text ''2024-01-01T09:00:00Z''),
      (''end_time'', Text ''2024-01-01T17:00:00Z''),
      (''duration_ms'', Number 28800000), (''duration_hours'', Number 8),
      (''activity_score'', Number 85)]"

definition demo_request :: time_request where
  "demo_request =
     \<lparr>b_projectId = Some ''P1'', b_taskId = Some ''T1'', b_startTime = 100, b_endTime = 200,
      b_durationMs = 100, b_durationHours = 0, b_pausedDurationMs = None,
      b_activityScore = Some 50, b_description = None, b_isBillable = None,
      q_projectId = None, q_taskId = None\<rparr>"

section \<open>Helper facts\<close>

lemma hex_decode_length:
  "list_all is_hex s \<Longrightarrow> length (hex_decode s) = length s div 2"
  by (induction s rule: hex_decode.induct) simp_all

lemma HARDCODED_KEY_length: "length HARDCODED_KEY = 32"
  unfolding HARDCODED_KEY_def by code_simp


lemma query_1: "query d [1] [x] stmt = (if online d then stmt [x] else Inl StorageError)"
  by (simp add: query_def bound_def split: backend.split)

lemma query_2: "query d [1, 2] [x, y] stmt = (if online d then stmt [x, y] else Inl StorageError)"
  by (simp add: query_def bound_def upt_rec split: backend.split)

lemma query_3: "query d [1, 2, 3] [x, y, z] stmt = (if online d then stmt [x, y, z] else Inl StorageError)"
  by (simp add: query_def bound_def upt_rec split: backend.split)

lemma filter_key_unique:
  "pk_unique (map key xs) \<Longrightarrow> x \<in> set xs \<Longrightarrow> key x = Some k \<Longrightarrow>
   filter (\<lambda>y. key y = Some k) xs = [x]"
proof (induction xs)
  case Nil
  then show ?case by simp
next
  case (Cons a xs)
  show ?case
  proof (cases "key a = Some k")
    case True
    have none: "\<forall>y \<in> set xs. key y \<noteq> Some k"
      using Cons.prems(1) True by (force simp: pk_unique_def)
    then have "filter (\<lambda>y. key y = Some k) xs = []"
      by (simp add: filter_empty_conv)
    moreover have "x = a"
      using Cons.prems(2,3) none by auto
    ultimately show ?thesis using True by simp
  next
    case False
    then have "x \<in> set xs" using Cons.prems(2,3) by auto
    moreover have "pk_unique (map key xs)"
      using Cons.prems(1) by (auto simp: pk_unique_def split: if_splits)
    ultimately show ?thesis using Cons.IH Cons.prems(3) False by simp
  qed
qed

lemma sql_eq_Some: "sql_eq a (Some k) = (a = Some k)"
  by (auto simp: sql_eq_def)

lemma id_param_stored:
  "Some i \<in> set stored \<Longrightarrow> id_param b uuid_in stored i = Some i"
  by (simp add: id_param_def)

lemma select_organization_id_online:
  "online d \<Longrightarrow> org_rows d t = Some rows \<Longrightarrow>
   id_param (backend d) uuid_in (map r_id rows) i = Some k \<Longrightarrow>
   select_organization_id uuid_in d t [i] =
     Inr (map r_organization_id (filter (\<lambda>r. r_id r = Some k \<and> r_deleted_at r = None) rows))"
  unfolding select_organization_id_def query_1 by simp

lemma select_organization_id_fails:
  "\<not> online d \<or> org_rows d t = None \<Longrightarrow>
   select_organization_id uuid_in d t [i] = Inl StorageError"
  unfolding select_organization_id_def query_1 by auto

lemma select_organization_id_rejects:
  "org_rows d t = Some rows \<Longrightarrow> id_param (backend d) uuid_in (map r_id rows) i = None \<Longrightarrow>
   select_organization_id uuid_in d t [i] = Inl StorageError"
  unfolding select_organization_id_def query_1 by simp

lemma filter_conj_unique:
  "pk_unique (map key xs) \<Longrightarrow> x \<in> set xs \<Longrightarrow> key x = Some k \<Longrightarrow>
   filter (\<lambda>y. key y = Some k \<and> P y) xs = (if P x then [x] else [])"
proof -
  assume a: "pk_unique (map key xs)" "x \<in> set xs" "key x = Some k"
  have "filter (\<lambda>y. key y = Some k \<and> P y) xs = filter P (filter (\<lambda>y. key y = Some k) xs)"
    by (simp add: conj_commute)
  then show ?thesis using filter_key_unique [OF a] by simp
qed

section \<open>Claim C8: the encryption key\<close>

text \<open>
  C8. \<open>getEncryptionKey\<close> yields a 32-byte key or fails. A configured secret (an
  \<^verbatim>\<open>ENCRYPTION_KEY\<close> that JavaScript takes as true, so not the empty string) of 64
  hexadecimal characters is returned hex-decoded; any other configured secret gives its
  SHA-256 digest, so the key is a function of the secret alone; with no secret the call
  throws in production, and elsewhere returns the hardcoded development key after two
  warnings. The digest has 32 bytes, which is assumed of the library function.
\<close>

theorem getEncryptionKey_contract:
  assumes sha: "\<forall>s. length (sha256 s) = 32"
  shows "(case getEncryptionKey sha256 e of
            Inl err \<Rightarrow> \<not> truthy (ENCRYPTION_KEY e) \<and> NODE_ENV e = Some ''production''
          | Inr (k, w) \<Rightarrow> length k = 32)
       \<and> (ENCRYPTION_KEY e = Some s \<and> is_hex64 s \<longrightarrow>
            getEncryptionKey sha256 e = Inr (hex_decode s, []))
       \<and> (ENCRYPTION_KEY e = Some s \<and> s \<noteq> [] \<and> \<not> is_hex64 s \<longrightarrow>
            getEncryptionKey sha256 e = Inr (sha256 s, []))
       \<and> (ENCRYPTION_KEY e = Some s \<and> s \<noteq> [] \<and> ENCRYPTION_KEY e' = Some s \<longrightarrow>
            getEncryptionKey sha256 e' = getEncryptionKey sha256 e)
       \<and> (\<not> truthy (ENCRYPTION_KEY e) \<and> NODE_ENV e = Some ''production'' \<longrightarrow>
            getEncryptionKey sha256 e = Inl MissingEncryptionKey)
       \<and> (\<not> truthy (ENCRYPTION_KEY e) \<and> NODE_ENV e \<noteq> Some ''production'' \<longrightarrow>
            getEncryptionKey sha256 e = Inr (HARDCODED_KEY, hardcoded_key_warnings)
            \<and> hardcoded_key_warnings \<noteq> [])"
proof -
  have len_hex: "length (hex_decode t) = 32" if "is_hex64 t" for t
    using that hex_decode_length [of t] by (simp add: is_hex64_def)
  have nonempty: "t \<noteq> []" if "is_hex64 t" for t
    using that by (auto simp: is_hex64_def)
  have p1: "case getEncryptionKey sha256 e of
            Inl err \<Rightarrow> \<not> truthy (ENCRYPTION_KEY e) \<and> NODE_ENV e = Some ''production''
          | Inr (k, w) \<Rightarrow> length k = 32"
    using sha len_hex HARDCODED_KEY_length by (simp add: getEncryptionKey_def Let_def)
  have p2: "ENCRYPTION_KEY e = Some s \<and> is_hex64 s \<longrightarrow>
            getEncryptionKey sha256 e = Inr (hex_decode s, [])"
    using nonempty by (auto simp: getEncryptionKey_def truthy_def)
  have p3: "ENCRYPTION_KEY e = Some s \<and> s \<noteq> [] \<and> \<not> is_hex64 s \<longrightarrow>
            getEncryptionKey sha256 e = Inr (sha256 s, [])"
    by (simp add: getEncryptionKey_def truthy_def)
  have p4: "ENCRYPTION_KEY e = Some s \<and> s \<noteq> [] \<and> ENCRYPTION_KEY e' = Some s \<longrightarrow>
            getEncryptionKey sha256 e' = getEncryptionKey sha256 e"
    by (simp add: getEncryptionKey_def truthy_def)
  have p5: "\<not> truthy (ENCRYPTION_KEY e) \<and> NODE_ENV e = Some ''production'' \<longrightarrow>
            getEncryptionKey sha256 e = Inl MissingEncryptionKey"
    by (simp add: getEncryptionKey_def)
  have p6: "\<not> truthy (ENCRYPTION_KEY e) \<and> NODE_ENV e \<noteq> Some ''production'' \<longrightarrow>
            getEncryptionKey sha256 e = Inr (HARDCODED_KEY, hardcoded_key_warnings)
            \<and> hardcoded_key_warnings \<noteq> []"
    by (simp add: getEncryptionKey_def hardcoded_key_warnings_def)
  from p1 p2 p3 p4 p5 p6 show ?thesis by blast
qed

theorem getEncryptionKey_contract_witness:
  "getEncryptionKey (\<lambda>s. replicate 32 (of_nat (length s)))
     \<lparr>ENCRYPTION_KEY = Some ''correct horse'', NODE_ENV = Some ''production'',
      DB_TYPE = None, EMBEDDED_MODE = None\<rparr>
     = Inr (replicate 32 13, [])
   \<and> getEncryptionKey (\<lambda>s. replicate 32 (of_nat (length s)))
     \<lparr>ENCRYPTION_KEY = Some [], NODE_ENV = Some ''production'',
      DB_TYPE = None, EMBEDDED_MODE = None\<rparr>
     = Inl MissingEncryptionKey
   \<and> getEncryptionKey (\<lambda>s. replicate 32 (of_nat (length s)))
     \<lparr>ENCRYPTION_KEY = None, NODE_ENV = Some ''development'',
      DB_TYPE = None, EMBEDDED_MODE = None\<rparr>
     = Inr (HARDCODED_KEY, hardcoded_key_warnings)"
proof -
  have sha: "\<forall>s. length ((\<lambda>s. replicate 32 (of_nat (length s)) :: byte list) s) = 32"
    by simp
  have nohex: "\<not> is_hex64 ''correct horse''"
    by (simp add: is_hex64_def)
  have a: "getEncryptionKey (\<lambda>s. replicate 32 (of_nat (length s)))
     \<lparr>ENCRYPTION_KEY = Some ''correct horse'', NODE_ENV = Some ''production'',
      DB_TYPE = None, EMBEDDED_MODE = None\<rparr>
     = Inr (replicate 32 13, [])"
    using nohex getEncryptionKey_contract [OF sha, of
      "\<lparr>ENCRYPTION_KEY = Some ''correct horse'', NODE_ENV = Some ''production'',
        DB_TYPE = None, EMBEDDED_MODE = None\<rparr>" "''correct horse''"]
    by simp
  have b: "getEncryptionKey (\<lambda>s. replicate 32 (of_nat (length s)))
     \<lparr>ENCRYPTION_KEY = Some [], NODE_ENV = Some ''production'',
      DB_TYPE = None, EMBEDDED_MODE = None\<rparr>
     = Inl MissingEncryptionKey"
    using getEncryptionKey_contract [OF sha, of
      "\<lparr>ENCRYPTION_KEY = Some [], NODE_ENV = Some ''production'',
        DB_TYPE = None, EMBEDDED_MODE = None\<rparr>"]
    by (simp add: truthy_def)
  have c: "getEncryptionKey (\<lambda>s. replicate 32 (of_nat (length s)))
     \<lparr>ENCRYPTION_KEY = None, NODE_ENV = Some ''development'',
      DB_TYPE = None, EMBEDDED_MODE = None\<rparr>
     = Inr (HARDCODED_KEY, hardcoded_key_warnings)"
    using getEncryptionKey_contract [OF sha, of
      "\<lparr>ENCRYPTION_KEY = None, NODE_ENV = Some ''development'',
        DB_TYPE = None, EMBEDDED_MODE = None\<rparr>"]
    by (simp add: truthy_def)
  from a b c show ?thesis by blast
qed

section \<open>Claim C5: the tenant isolation guard\<close>

text \<open>
  C5. \<open>validateOrganizationResource\<close> answers "Validation failed" when the lookup
  throws: the engine does not answer, the table has no such columns, or, on the server
  store, the id is not the id of a stored row and the engine does not read it as a UUID.
  Otherwise the lookup compares with an id \<open>k\<close>: the id given, on the embedded store and
  for the id of a stored row, and on the server store the printed form of the UUID that the
  text denotes. For a table with a primary key the answer is then "Resource not found" when
  no row that is not deleted has the id \<open>k\<close>; "Resource does not belong to your
  organization" when that row's organization differs from the actor's; valid when it is the
  actor's.
\<close>

theorem validateOrganizationResource_outcomes:
  "(\<not> online d \<or> org_rows d t = None \<longrightarrow>
      validateOrganizationResource uuid_in d u i t = Invalid ''Validation failed'')
   \<and> (org_rows d t = Some rows \<and> backend d = Server \<and> Some i \<notin> set (map r_id rows)
        \<and> uuid_in i = None \<longrightarrow>
      validateOrganizationResource uuid_in d u i t = Invalid ''Validation failed'')
   \<and> (online d \<and> org_rows d t = Some rows \<and> pk_unique (map r_id rows)
        \<and> (if backend d = Embedded \<or> Some i \<in> set (map r_id rows) then Some i else uuid_in i)
            = Some k \<longrightarrow>
        ((\<forall>r \<in> set rows. \<not> (r_id r = Some k \<and> r_deleted_at r = None)) \<longrightarrow>
           validateOrganizationResource uuid_in d u i t = Invalid ''Resource not found'')
      \<and> (\<forall>r \<in> set rows. r_id r = Some k \<and> r_deleted_at r = None \<longrightarrow>
           validateOrganizationResource uuid_in d u i t =
             (if r_organization_id r \<noteq> u_organizationId u
              then Invalid ''Resource does not belong to your organization''
              else Valid)))"
proof (intro conjI impI)
  assume "\<not> online d \<or> org_rows d t = None"
  then show "validateOrganizationResource uuid_in d u i t = Invalid ''Validation failed''"
    by (simp add: validateOrganizationResource_def select_organization_id_fails)
next
  assume a: "org_rows d t = Some rows \<and> backend d = Server \<and> Some i \<notin> set (map r_id rows)
        \<and> uuid_in i = None"
  then have "id_param (backend d) uuid_in (map r_id rows) i = None"
    by (simp add: id_param_def)
  with a show "validateOrganizationResource uuid_in d u i t = Invalid ''Validation failed''"
    by (simp add: validateOrganizationResource_def select_organization_id_rejects)
next
  assume a: "online d \<and> org_rows d t = Some rows \<and> pk_unique (map r_id rows)
        \<and> (if backend d = Embedded \<or> Some i \<in> set (map r_id rows) then Some i else uuid_in i)
            = Some k"
    and none: "\<forall>r \<in> set rows. \<not> (r_id r = Some k \<and> r_deleted_at r = None)"
  from a have key: "id_param (backend d) uuid_in (map r_id rows) i = Some k"
    by (simp add: id_param_def)
  from none have "filter (\<lambda>r. r_id r = Some k \<and> r_deleted_at r = None) rows = []"
    by (simp add: filter_empty_conv)
  with a key show "validateOrganizationResource uuid_in d u i t = Invalid ''Resource not found''"
    by (simp add: validateOrganizationResource_def select_organization_id_online)
next
  assume a: "online d \<and> org_rows d t = Some rows \<and> pk_unique (map r_id rows)
        \<and> (if backend d = Embedded \<or> Some i \<in> set (map r_id rows) then Some i else uuid_in i)
            = Some k"
  from a have key: "id_param (backend d) uuid_in (map r_id rows) i = Some k"
    by (simp add: id_param_def)
  show "\<forall>r \<in> set rows. r_id r = Some k \<and> r_deleted_at r = None \<longrightarrow>
           validateOrganizationResource uuid_in d u i t =
             (if r_organization_id r \<noteq> u_organizationId u
              then Invalid ''Resource does not belong to your organization''
              else Valid)"
  proof (intro ballI impI)
    fix r assume r: "r \<in> set rows" "r_id r = Some k \<and> r_deleted_at r = None"
    have "filter (\<lambda>y. r_id y = Some k \<and> r_deleted_at y = None) rows = [r]"
      using filter_conj_unique [of r_id rows r k "\<lambda>y. r_deleted_at y = None"] a r by simp
    with a key show "validateOrganizationResource uuid_in d u i t =
             (if r_organization_id r \<noteq> u_organizationId u
              then Invalid ''Resource does not belong to your organization''
              else Valid)"
      by (simp add: validateOrganizationResource_def select_organization_id_online)
  qed
qed

theorem validateOrganizationResource_outcomes_witness:
  "validateOrganizationResource demo_uuid_in (demo_db Server) ann ''P1'' ''projects'' = Valid
   \<and> validateOrganizationResource demo_uuid_in (demo_db Server) bob ''P1'' ''projects''
       = Invalid ''Resource does not belong to your organization''
   \<and> validateOrganizationResource demo_uuid_in (demo_db Server) ann ''{P1}'' ''projects''
       = Valid
   \<and> validateOrganizationResource demo_uuid_in (demo_db Embedded) ann ''{P1}'' ''projects''
       = Invalid ''Resource not found''
   \<and> validateOrganizationResource demo_uuid_in (demo_db Server) bob ''P9'' ''projects''
       = Invalid ''Resource not found''
   \<and> validateOrganizationResource demo_uuid_in (demo_db Server) bob ''no uuid'' ''projects''
       = Invalid ''Validation failed''
   \<and> validateOrganizationResource demo_uuid_in (demo_db Embedded) bob ''no uuid'' ''projects''
       = Invalid ''Resource not found''
   \<and> validateOrganizationResource demo_uuid_in (demo_db Server) bob ''P1'' ''web_logs''
       = Invalid ''Validation failed''"
proof -
  let ?p = "\<lparr>r_id = Some ''P1'', r_organization_id = ''orgA'', r_deleted_at = None\<rparr>"
  have rows: "org_rows (demo_db b) ''projects'' = Some [?p]" for b
    by (simp add: org_rows_def demo_db_def)
  have bk: "backend (demo_db b) = b" for b
    by (simp add: demo_db_def)
  have pre: "online (demo_db b) \<and> org_rows (demo_db b) ''projects'' = Some [?p]
             \<and> pk_unique (map r_id [?p])" for b
    using rows by (simp add: demo_db_def pk_unique_def)
  have a: "validateOrganizationResource demo_uuid_in (demo_db Server) ann ''P1'' ''projects''
       = Valid"
    using validateOrganizationResource_outcomes
            [where d = "demo_db Server" and t = "''projects''" and rows = "[?p]" and u = ann
               and i = "''P1''" and k = "''P1''" and uuid_in = demo_uuid_in] pre [of Server]
    by (simp add: ann_def)
  have b: "validateOrganizationResource demo_uuid_in (demo_db Server) bob ''P1'' ''projects''
       = Invalid ''Resource does not belong to your organization''"
    using validateOrganizationResource_outcomes
            [where d = "demo_db Server" and t = "''projects''" and rows = "[?p]" and u = bob
               and i = "''P1''" and k = "''P1''" and uuid_in = demo_uuid_in] pre [of Server]
    by (simp add: bob_def)
  have c: "validateOrganizationResource demo_uuid_in (demo_db Server) ann ''{P1}'' ''projects''
       = Valid"
    using validateOrganizationResource_outcomes
            [where d = "demo_db Server" and t = "''projects''" and rows = "[?p]" and u = ann
               and i = "''{P1}''" and k = "''P1''" and uuid_in = demo_uuid_in] pre [of Server]
    by (simp add: ann_def bk demo_uuid_in_def)
  have d: "validateOrganizationResource demo_uuid_in (demo_db Embedded) ann ''{P1}'' ''projects''
       = Invalid ''Resource not found''"
    using validateOrganizationResource_outcomes
            [where d = "demo_db Embedded" and t = "''projects''" and rows = "[?p]" and u = ann
               and i = "''{P1}''" and k = "''{P1}''" and uuid_in = demo_uuid_in]
          pre [of Embedded]
    by (simp add: bk)
  have e: "validateOrganizationResource demo_uuid_in (demo_db Server) bob ''P9'' ''projects''
       = Invalid ''Resource not found''"
    using validateOrganizationResource_outcomes
            [where d = "demo_db Server" and t = "''projects''" and rows = "[?p]" and u = bob
               and i = "''P9''" and k = "''P9''" and uuid_in = demo_uuid_in] pre [of Server]
    by (simp add: bk demo_uuid_in_def)
  have f: "validateOrganizationResource demo_uuid_in (demo_db Server) bob ''no uuid'' ''projects''
       = Invalid ''Validation failed''"
    using validateOrganizationResource_outcomes
            [where d = "demo_db Server" and t = "''projects''" and rows = "[?p]" and u = bob
               and i = "''no uuid''" and uuid_in = demo_uuid_in] pre [of Server]
    by (simp add: bk demo_uuid_in_def)
  have g: "validateOrganizationResource demo_uuid_in (demo_db Embedded) bob ''no uuid'' ''projects''
       = Invalid ''Resource not found''"
    using validateOrganizationResource_outcomes
            [where d = "demo_db Embedded" and t = "''projects''" and rows = "[?p]" and u = bob
               and i = "''no uuid''" and k = "''no uuid''" and uuid_in = demo_uuid_in]
          pre [of Embedded]
    by (simp add: bk)
  have none: "org_rows (demo_db Server) ''web_logs'' = None"
    by (simp add: org_rows_def)
  have h: "validateOrganizationResource demo_uuid_in (demo_db Server) bob ''P1'' ''web_logs''
       = Invalid ''Validation failed''"
    using validateOrganizationResource_outcomes
            [where d = "demo_db Server" and t = "''web_logs''" and rows = "[]" and u = bob
               and i = "''P1''" and uuid_in = demo_uuid_in] none
    by simp
  from a b c d e f g h show ?thesis by blast
qed

lemma pk_same:
  "pk_unique (map key xs) \<Longrightarrow> x \<in> set xs \<Longrightarrow> y \<in> set xs \<Longrightarrow>
   key x = Some k \<Longrightarrow> key y = Some k \<Longrightarrow> y = x"
proof -
  assume a: "pk_unique (map key xs)" "x \<in> set xs" "key x = Some k"
    and y: "y \<in> set xs" "key y = Some k"
  from y have "y \<in> set (filter (\<lambda>z. key z = Some k) xs)" by simp
  with filter_key_unique [OF a] show "y = x" by simp
qed

lemma select_time_log_online:
  "online d \<Longrightarrow>
   select_time_log d [Some i, Some org] =
     Inr (filter (\<lambda>r. tl_id r = Some i \<and> (tl_organization_id r = org \<and> tl_deleted_at r = None))
            (time_logs d))"
  unfolding select_time_log_def query_2 by (simp add: sql_eq_Some)

lemma select_time_log_offline:
  "\<not> online d \<Longrightarrow> select_time_log d [Some i, Some org] = Inl StorageError"
  unfolding select_time_log_def query_2 by simp

lemma update_one_online:
  "online d \<Longrightarrow>
   update_one d now [s, a, Some i] = update_where d (\<lambda>r. tl_id r = Some i) (decide s a now)"
  unfolding update_one_def query_3 by (simp add: sql_eq_Some)

lemma select_time_log_cases:
  assumes "online d" "pk_unique (map tl_id (time_logs d))"
    "r \<in> set (time_logs d)" "tl_id r = Some i"
  shows "select_time_log d [Some i, Some org] =
     Inr (if tl_organization_id r = org \<and> tl_deleted_at r = None then [r] else [])"
  using assms filter_conj_unique [of tl_id "time_logs d" r i
      "\<lambda>r. tl_organization_id r = org \<and> tl_deleted_at r = None"]
  by (simp add: select_time_log_online)

lemma hit_only:
  assumes "pk_unique (map tl_id (time_logs d))" "r \<in> set (time_logs d)" "tl_id r = Some i"
  shows "map (\<lambda>x. if tl_id x = Some i then f x else x) (time_logs d)
       = map (\<lambda>x. if x = r then f r else x) (time_logs d)"
proof (rule map_cong [OF refl])
  fix x assume x: "x \<in> set (time_logs d)"
  show "(if tl_id x = Some i then f x else x) = (if x = r then f r else x)"
  proof (cases "tl_id x = Some i")
    case True
    have "x = r" by (rule pk_same [OF assms(1) assms(2) x assms(3) True])
    then show ?thesis using True by simp
  next
    case False
    then have "x \<noteq> r" using assms(3) by auto
    then show ?thesis using False by simp
  qed
qed

lemma update_where_one:
  assumes "pk_unique (map tl_id (time_logs d))" "r \<in> set (time_logs d)" "tl_id r = Some i"
    "fk_approved_by d (f r)"
  shows "update_where d (\<lambda>x. tl_id x = Some i) f =
     Inr ([f r], d\<lparr>time_logs := map (\<lambda>x. if x = r then f r else x) (time_logs d)\<rparr>)"
  using assms filter_key_unique [of tl_id "time_logs d" r i] hit_only [OF assms(1-3), of f]
  by (simp add: update_where_def)

lemma fk_decide:
  "fk_approved_by d (decide s (Some a) now r) = (backend d = Server \<longrightarrow> has_key (users d) a)"
  by (simp add: fk_approved_by_def decide_def)

lemma put_approve_conflict:
  assumes "online d" "pk_unique (map tl_id (time_logs d))" "approve_body_valid isUUID b"
    "r \<in> set (time_logs d)" "tl_id r = Some (timeLogId b)"
    "tl_organization_id r = u_organizationId u" "tl_deleted_at r = None"
    "tl_status r \<noteq> Some ''pending''"
  shows "put_approve isUUID d now u b =
           (Fail 400 (''Time log is already '' @ template (tl_status r)), d)"
proof -
  have sel: "select_time_log d [Some (timeLogId b), Some (u_organizationId u)] = Inr [r]"
    using select_time_log_cases [OF assms(1,2,4,5), of "u_organizationId u"] assms(6,7) by simp
  show ?thesis
    unfolding put_approve_def using sel assms(3,8) by simp
qed

lemma decide_fields:
  "tl_id (decide s a now r) = tl_id r"
  "tl_organization_id (decide s a now r) = tl_organization_id r"
  "tl_deleted_at (decide s a now r) = tl_deleted_at r"
  "tl_status (decide s a now r) = s"
  "tl_approved_by (decide s a now r) = a"
  "tl_approved_at (decide s a now r) = Some now"
  "tl_updated_at (decide s a now r) = now"
  by (simp_all add: decide_def)

lemma put_approve_success:
  assumes "online d" "pk_unique (map tl_id (time_logs d))" "approve_body_valid isUUID b"
    "r \<in> set (time_logs d)" "tl_id r = Some (timeLogId b)"
    "tl_organization_id r = u_organizationId u" "tl_deleted_at r = None"
    "tl_status r = Some ''pending''"
    "backend d = Server \<longrightarrow> has_key (users d) (u_id u)"
  shows "put_approve isUUID d now u b =
     (Ok 200 (''Time log '' @ action b @ ''d successfully'')
        (Decided \<lparr>d_id = tl_id r,
                  d_status = Some (new_status (action b)),
                  d_approvedAt = Some now, d_approvedBy_id = u_id u,
                  d_approvedBy_name = u_firstName u @ '' '' @ u_lastName u\<rparr>),
      d\<lparr>time_logs :=
          map (\<lambda>x. if x = r
                    then decide (Some (new_status (action b))) (Some (u_id u)) now r
                    else x) (time_logs d)\<rparr>)"
proof -
  let ?s = "Some (new_status (action b))"
  have sel: "select_time_log d [Some (timeLogId b), Some (u_organizationId u)] = Inr [r]"
    using select_time_log_cases [OF assms(1,2,4,5), of "u_organizationId u"] assms(6,7) by simp
  have fk: "fk_approved_by d (decide ?s (Some (u_id u)) now r)"
    using assms(9) by (simp add: fk_decide)
  have upd: "update_one d now [?s, Some (u_id u), Some (timeLogId b)] =
      Inr ([decide ?s (Some (u_id u)) now r],
           d\<lparr>time_logs := map (\<lambda>x. if x = r then decide ?s (Some (u_id u)) now r else x)
                              (time_logs d)\<rparr>)"
    using update_where_one [where f = "decide ?s (Some (u_id u)) now", OF assms(2,4,5) fk]
      assms(1) by (simp add: update_one_online)
  have valid: "approve_body_valid isUUID b" by (rule assms(3))
  have st: "tl_status r = Some ''pending''" by (rule assms(8))
  have "put_approve isUUID d now u b = (case update_one d now [?s, Some (u_id u), Some (timeLogId b)] of
                Inl e \<Rightarrow> (Fail 500 ''Failed to approve/reject time log'', d)
              | Inr ([], d') \<Rightarrow> (Fail 500 ''Failed to approve/reject time log'', d')
              | Inr (row # _, d') \<Rightarrow>
                  (Ok 200 (''Time log '' @ action b @ ''d successfully'')
                     (Decided \<lparr>d_id = tl_id row, d_status = tl_status row,
                               d_approvedAt = tl_approved_at row,
                               d_approvedBy_id = u_id u,
                               d_approvedBy_name = u_firstName u @ '' '' @ u_lastName u\<rparr>),
                   d'))"
    unfolding put_approve_def Let_def
    using valid sel st by simp
  also have "\<dots> = (Ok 200 (''Time log '' @ action b @ ''d successfully'')
        (Decided \<lparr>d_id = tl_id r,
                  d_status = Some (new_status (action b)),
                  d_approvedAt = Some now, d_approvedBy_id = u_id u,
                  d_approvedBy_name = u_firstName u @ '' '' @ u_lastName u\<rparr>),
      d\<lparr>time_logs :=
          map (\<lambda>x. if x = r
                    then decide (Some (new_status (action b))) (Some (u_id u)) now r
                    else x) (time_logs d)\<rparr>)"
    unfolding upd by (simp add: decide_fields)
  finally show ?thesis .
qed


lemma update_one_db:
  "update_one d now [s, a, Some i] = Inr (ch, d') \<Longrightarrow>
   d' = d\<lparr>time_logs := map (\<lambda>x. if tl_id x = Some i then decide s a now x else x) (time_logs d)\<rparr>"
  unfolding update_one_def query_3
  by (auto simp: update_where_def sql_eq_Some Let_def split: if_splits)

lemma put_approve_db:
  assumes "put_approve isUUID d now u b = (rep, d')"
  shows "d' = d \<or> (\<exists>s a. d' = d\<lparr>time_logs :=
           map (\<lambda>x. if tl_id x = Some (timeLogId b) then decide s a now x else x) (time_logs d)\<rparr>)"
proof (cases "update_one d now [Some (new_status (action b)), Some (u_id u), Some (timeLogId b)]")
  case (Inl e)
  then have "snd (put_approve isUUID d now u b) = d"
    unfolding put_approve_def Let_def
    by (simp split: sum.split list.split)
  with assms show ?thesis by simp
next
  case (Inr p)
  obtain ch d2 where p: "p = (ch, d2)" by (cases p)
  have d2: "d2 = d\<lparr>time_logs := map (\<lambda>x. if tl_id x = Some (timeLogId b)
                then decide (Some (new_status (action b))) (Some (u_id u)) now x else x)
              (time_logs d)\<rparr>"
    using update_one_db Inr p by blast
  have "snd (put_approve isUUID d now u b) = d \<or> snd (put_approve isUUID d now u b) = d2"
    unfolding put_approve_def Let_def
    using Inr p by (simp split: sum.split list.split)
  with assms d2 show ?thesis by auto
qed

lemma put_approve_terminal_fails:
  assumes "pk_unique (map tl_id (time_logs d))" "r \<in> set (time_logs d)"
    "tl_id r = Some (timeLogId b)" "tl_status r \<noteq> Some ''pending''"
  shows "is_fail (fst (put_approve isUUID d now u b)) \<and> snd (put_approve isUUID d now u b) = d"
proof (cases "online d")
  case True
  have sel: "select_time_log d [Some (timeLogId b), Some (u_organizationId u)] =
     Inr (if tl_organization_id r = u_organizationId u \<and> tl_deleted_at r = None then [r] else [])"
    by (rule select_time_log_cases [OF True assms(1,2,3)])
  show ?thesis
    unfolding put_approve_def Let_def sel using assms(4) by (simp add: is_fail_def)
next
  case False
  show ?thesis
    unfolding put_approve_def Let_def select_time_log_offline [OF False]
    by (simp add: is_fail_def)
qed

lemma put_approve_step:
  assumes pk: "pk_unique (map tl_id (time_logs d))" and r: "r \<in> set (time_logs d)"
    and i: "tl_id r = Some i" and st: "tl_status r \<noteq> Some ''pending''"
    and run: "put_approve isUUID d now u b = (rep, d')"
  shows "pk_unique (map tl_id (time_logs d')) \<and> r \<in> set (time_logs d')
         \<and> (timeLogId b = i \<longrightarrow> is_fail rep)"
proof (cases "timeLogId b = i")
  case True
  with put_approve_terminal_fails [OF pk r _ st, of b isUUID now u] i run
  show ?thesis using pk r by simp
next
  case False
  from put_approve_db [OF run] show ?thesis
  proof
    assume "d' = d"
    then show ?thesis using pk r False by simp
  next
    assume "\<exists>s a. d' = d\<lparr>time_logs :=
           map (\<lambda>x. if tl_id x = Some (timeLogId b) then decide s a now x else x) (time_logs d)\<rparr>"
    then obtain s a where d': "d' = d\<lparr>time_logs :=
           map (\<lambda>x. if tl_id x = Some (timeLogId b) then decide s a now x else x) (time_logs d)\<rparr>"
      by blast
    let ?g = "\<lambda>x. if tl_id x = Some (timeLogId b) then decide s a now x else x"
    have g: "tl_id (?g x) = tl_id x" for x
      by (simp add: decide_fields)
    have ids: "map tl_id (map ?g (time_logs d)) = map tl_id (time_logs d)"
      unfolding map_map o_def g ..
    have logs: "time_logs d' = map ?g (time_logs d)"
      using d' by simp
    have "?g r = r" using i False by simp
    then have "r \<in> set (map ?g (time_logs d))" using r by force
    then have "r \<in> set (time_logs d')" unfolding logs .
    moreover have "pk_unique (map tl_id (time_logs d'))"
      unfolding logs ids by (rule pk)
    ultimately show ?thesis using False by simp
  qed
qed

lemma run_approvals_terminal:
  "pk_unique (map tl_id (time_logs d)) \<Longrightarrow> r \<in> set (time_logs d) \<Longrightarrow> tl_id r = Some i \<Longrightarrow>
   tl_status r \<noteq> Some ''pending'' \<Longrightarrow> run_approvals isUUID d calls = (replies, d') \<Longrightarrow>
   pk_unique (map tl_id (time_logs d')) \<and> r \<in> set (time_logs d')
   \<and> length replies = length calls
   \<and> (\<forall>k < length calls. timeLogId (snd (snd (calls ! k))) = i \<longrightarrow> is_fail (replies ! k))"
proof (induction calls arbitrary: d replies)
  case Nil
  then show ?case by simp
next
  case (Cons c calls)
  obtain now u b where c: "c = (now, u, b)" by (cases c)
  obtain rep d1 where one: "put_approve isUUID d now u b = (rep, d1)"
    by (cases "put_approve isUUID d now u b")
  obtain rs d2 where rest: "run_approvals isUUID d1 calls = (rs, d2)"
    by (cases "run_approvals isUUID d1 calls")
  from Cons.prems(5) c one rest have res: "replies = rep # rs" "d' = d2" by simp_all
  have step: "pk_unique (map tl_id (time_logs d1)) \<and> r \<in> set (time_logs d1)
         \<and> (timeLogId b = i \<longrightarrow> is_fail rep)"
    by (rule put_approve_step [OF Cons.prems(1-4) one])
  have rest': "run_approvals isUUID d1 calls = (rs, d')"
    using rest res by simp
  have ih: "pk_unique (map tl_id (time_logs d')) \<and> r \<in> set (time_logs d')
     \<and> length rs = length calls
     \<and> (\<forall>k < length calls. timeLogId (snd (snd (calls ! k))) = i \<longrightarrow> is_fail (rs ! k))"
    using Cons.IH [OF _ _ Cons.prems(3,4) rest'] step by blast
  have "\<forall>k < length (c # calls). timeLogId (snd (snd ((c # calls) ! k))) = i
          \<longrightarrow> is_fail ((rep # rs) ! k)"
  proof (intro allI impI)
    fix k assume k: "k < length (c # calls)"
      and t: "timeLogId (snd (snd ((c # calls) ! k))) = i"
    show "is_fail ((rep # rs) ! k)"
    proof (cases k)
      case 0
      then show ?thesis using t c step by simp
    next
      case (Suc j)
      then show ?thesis using k t ih by simp
    qed
  qed
  then show ?case using ih res by simp
qed

text \<open>
  The handler of \<^verbatim>\<open>PUT /approve\<close>, taken without the gate in front of it, on a time log
  of the caller's organization that is not deleted. When the status is not \<open>pending\<close> the
  reply is the 400 "Time log is already <status>" and the database is unchanged; when it is
  \<open>pending\<close>, the one update sets status (\<open>approved\<close> for the action \<open>approve\<close>,
  \<open>rejected\<close> for \<open>reject\<close>), \<open>approved_by\<close> and \<open>approved_at\<close> (and
  \<open>updated_at\<close>) of that row and of no other. Hence in a sequential run of calls of the
  handler, a row that is approved or rejected stays exactly as it is, and every call that
  names it fails. On the server store the actor is a row of \<open>users\<close>, as the foreign key of
  \<open>approved_by\<close> wants.
\<close>

lemma put_approve_handler_lifecycle:
  assumes "online d" and "pk_unique (map tl_id (time_logs d))"
    and "approve_body_valid isUUID b"
    and "r \<in> set (time_logs d)" and "tl_id r = Some (timeLogId b)"
    and "tl_organization_id r = u_organizationId u" and "tl_deleted_at r = None"
    and "backend d = Server \<longrightarrow> has_key (users d) (u_id u)"
  shows "(tl_status r \<noteq> Some ''pending'' \<longrightarrow>
            put_approve isUUID d now u b =
              (Fail 400 (''Time log is already '' @ template (tl_status r)), d))
       \<and> (tl_status r = Some ''pending'' \<longrightarrow>
            put_approve isUUID d now u b =
              (Ok 200 (''Time log '' @ action b @ ''d successfully'')
                 (Decided \<lparr>d_id = tl_id r,
                           d_status = Some (if action b = ''approve'' then ''approved''
                                            else ''rejected''),
                           d_approvedAt = Some now, d_approvedBy_id = u_id u,
                           d_approvedBy_name = u_firstName u @ '' '' @ u_lastName u\<rparr>),
               d\<lparr>time_logs :=
                   map (\<lambda>x. if x = r
                             then r\<lparr>tl_status := Some (if action b = ''approve'' then ''approved''
                                                        else ''rejected''),
                                    tl_approved_by := Some (u_id u),
                                    tl_approved_at := Some now, tl_updated_at := now\<rparr>
                             else x) (time_logs d)\<rparr>))
       \<and> (tl_status r \<noteq> Some ''pending'' \<longrightarrow>
            (\<forall>calls replies d'.
               run_approvals isUUID d calls = (replies, d') \<longrightarrow>
                 r \<in> set (time_logs d')
                 \<and> (\<forall>x \<in> set (time_logs d'). tl_id x = tl_id r \<longrightarrow> x = r)
                 \<and> (\<forall>k < length calls.
                       timeLogId (snd (snd (calls ! k))) = timeLogId b \<longrightarrow>
                         is_fail (replies ! k))))"
proof -
  have p1: "tl_status r \<noteq> Some ''pending'' \<longrightarrow>
            put_approve isUUID d now u b =
              (Fail 400 (''Time log is already '' @ template (tl_status r)), d)"
    using put_approve_conflict [OF assms(1-7)] by blast
  have p2: "tl_status r = Some ''pending'' \<longrightarrow>
            put_approve isUUID d now u b =
              (Ok 200 (''Time log '' @ action b @ ''d successfully'')
                 (Decided \<lparr>d_id = tl_id r,
                           d_status = Some (if action b = ''approve'' then ''approved''
                                            else ''rejected''),
                           d_approvedAt = Some now, d_approvedBy_id = u_id u,
                           d_approvedBy_name = u_firstName u @ '' '' @ u_lastName u\<rparr>),
               d\<lparr>time_logs :=
                   map (\<lambda>x. if x = r
                             then r\<lparr>tl_status := Some (if action b = ''approve'' then ''approved''
                                                        else ''rejected''),
                                    tl_approved_by := Some (u_id u),
                                    tl_approved_at := Some now, tl_updated_at := now\<rparr>
                             else x) (time_logs d)\<rparr>)"
    using put_approve_success [OF assms(1-7) _ assms(8), of now]
    by (simp add: new_status_def decide_def)
  have p3: "r \<in> set (time_logs d')
            \<and> (\<forall>x \<in> set (time_logs d'). tl_id x = tl_id r \<longrightarrow> x = r)
            \<and> (\<forall>k < length calls.
                  timeLogId (snd (snd (calls ! k))) = timeLogId b \<longrightarrow> is_fail (replies ! k))"
    if st: "tl_status r \<noteq> Some ''pending''"
      and run: "run_approvals isUUID d calls = (replies, d')" for calls replies d'
  proof -
    note inv = run_approvals_terminal [OF assms(2,4,5) st run]
    have "\<forall>x \<in> set (time_logs d'). tl_id x = tl_id r \<longrightarrow> x = r"
    proof (intro ballI impI)
      fix x assume "x \<in> set (time_logs d')" "tl_id x = tl_id r"
      then show "x = r"
        using pk_same [of tl_id "time_logs d'" r x "timeLogId b"] inv assms(5) by simp
    qed
    with inv show ?thesis by blast
  qed
  from p1 p2 p3 show ?thesis by blast
qed

lemma sql_eq_Some_Some: "sql_eq (Some a) (Some b) = (a = b)"
  by (auto simp: sql_eq_def)

lemma select_owned_online:
  "online d \<Longrightarrow>
   select_owned d rows [Some i, Some org] =
     Inr (filter (\<lambda>r. r_id r = Some i \<and> (r_organization_id r = org \<and> r_deleted_at r = None)) rows)"
  unfolding select_owned_def query_2 by (simp add: sql_eq_Some sql_eq_Some_Some)

lemma select_owned_cases:
  assumes "online d" "pk_unique (map r_id rows)" "r \<in> set rows" "r_id r = Some i"
  shows "select_owned d rows [Some i, Some org] =
     Inr (if r_organization_id r = org \<and> r_deleted_at r = None then [r] else [])"
  using assms filter_conj_unique [of r_id rows r i
      "\<lambda>r. r_organization_id r = org \<and> r_deleted_at r = None"]
  by (simp add: select_owned_online)

lemma select_screenshot_cases:
  assumes "online d" "pk_unique (map s_id (screenshots d))" "r \<in> set (screenshots d)"
    "s_id r = Some i"
  shows "select_screenshot uuid_in d [i, org] =
     Inr (if s_organization_id r = org \<and> s_deleted_at r = None then [r] else [])"
proof -
  have "Some i \<in> set (map s_id (screenshots d))"
    using assms(3,4) by force
  then have key: "id_param (backend d) uuid_in (map s_id (screenshots d)) i = Some i"
    by (rule id_param_stored)
  have "select_screenshot uuid_in d [i, org] =
     Inr (filter (\<lambda>r. s_id r = Some i \<and> (s_organization_id r = org \<and> s_deleted_at r = None))
            (screenshots d))"
    unfolding select_screenshot_def query_2 using assms(1) key by simp
  then show ?thesis
    using assms filter_conj_unique [of s_id "screenshots d" r i
      "\<lambda>r. s_organization_id r = org \<and> s_deleted_at r = None"]
    by simp
qed

lemma validate_foreign:
  assumes "online d" "org_rows d t = Some rows" "pk_unique (map r_id rows)"
    "r \<in> set rows" "r_id r = Some i" "r_organization_id r \<noteq> u_organizationId u"
  shows "validateOrganizationResource uuid_in d u i t =
     Invalid (if r_deleted_at r = None
              then ''Resource does not belong to your organization''
              else ''Resource not found'')"
proof -
  have "Some i \<in> set (map r_id rows)"
    using assms(4,5) by force
  then have key: "id_param (backend d) uuid_in (map r_id rows) i = Some i"
    by (rule id_param_stored)
  have "filter (\<lambda>y. r_id y = Some i \<and> r_deleted_at y = None) rows =
          (if r_deleted_at r = None then [r] else [])"
    using filter_conj_unique [of r_id rows r i "\<lambda>y. r_deleted_at y = None"] assms(3-5) by simp
  then show ?thesis
    using assms(6)
    by (simp add: validateOrganizationResource_def
          select_organization_id_online [OF assms(1,2) key])
qed

lemma org_rows_projects: "org_rows d ''projects'' = Some (projects d)"
  by (simp add: org_rows_def)

lemma org_rows_tasks: "org_rows d ''tasks'' = Some (tasks d)"
  by (simp add: org_rows_def)

lemma validateProject_shape:
  "validateProject uuid_in d u req = None
   \<or> (\<exists>m. validateProject uuid_in d u req = Some (Fail 403 m))"
  by (simp add: validateProject_def Let_def split: validation.split)

lemma validateProject_foreign:
  assumes "online d" "pk_unique (map r_id (projects d))" "p \<in> set (projects d)"
    "r_id p = Some i" "r_organization_id p \<noteq> u_organizationId u" "i \<noteq> []"
    "js_or (b_projectId req) (q_projectId req) = Some i"
  shows "\<exists>m. validateProject uuid_in d u req = Some (Fail 403 m)"
  using validate_foreign [OF assms(1) org_rows_projects assms(2-5), of uuid_in] assms(6,7)
  by (simp add: validateProject_def truthy_def)

lemma validateTask_foreign:
  assumes "online d" "pk_unique (map r_id (tasks d))" "p \<in> set (tasks d)"
    "r_id p = Some i" "r_organization_id p \<noteq> u_organizationId u" "i \<noteq> []"
    "js_or (b_taskId req) (q_taskId req) = Some i"
  shows "\<exists>m. validateTask uuid_in d u req = Some (Fail 403 m)"
  using validate_foreign [OF assms(1) org_rows_tasks assms(2-5), of uuid_in] assms(6,7)
  by (simp add: validateTask_def truthy_def)

lemma post_time_foreign_project:
  assumes "online d" "pk_unique (map r_id (projects d))" "p \<in> set (projects d)"
    "r_id p = Some i" "r_organization_id p \<noteq> u_organizationId u" "i \<noteq> []"
    "js_or (b_projectId req) (q_projectId req) = Some i"
  shows "\<exists>m. post_time isUUID uuid_in d new_id now u req = (Fail 403 m, d)"
  using validateProject_foreign [OF assms, of uuid_in] by (auto simp: post_time_def)

lemma post_time_foreign_task:
  assumes "online d" "pk_unique (map r_id (tasks d))" "p \<in> set (tasks d)"
    "r_id p = Some i" "r_organization_id p \<noteq> u_organizationId u" "i \<noteq> []"
    "js_or (b_taskId req) (q_taskId req) = Some i"
  shows "\<exists>m. post_time isUUID uuid_in d new_id now u req = (Fail 403 m, d)"
  using validateTask_foreign [OF assms, of uuid_in] validateProject_shape [of uuid_in d u req]
  by (auto simp: post_time_def)

lemma time_request_valid_ids:
  "time_request_valid isUUID req \<Longrightarrow> \<exists>p t. b_projectId req = Some p \<and> b_taskId req = Some t"
  by (auto simp: time_request_valid_def split: option.splits)

lemma handler_foreign_project:
  assumes "online d" "pk_unique (map r_id (projects d))" "p \<in> set (projects d)"
    "r_id p = Some i" "r_organization_id p \<noteq> u_organizationId u"
    "b_projectId req = Some i" "time_request_valid isUUID req"
  shows "post_time_handler isUUID d new_id now u req =
     (Fail 403 ''Project not found or does not belong to your organization'', d)"
proof -
  obtain t where t: "b_taskId req = Some t"
    using time_request_valid_ids [OF assms(7)] by blast
  have sel: "select_owned d (projects d) [Some i, Some (u_organizationId u)] = Inr []"
    using select_owned_cases [OF assms(1-4), of "u_organizationId u"] assms(5) by simp
  show ?thesis
    unfolding post_time_handler_def using assms(6,7) t sel by simp
qed

lemma handler_foreign_task:
  assumes "online d" "pk_unique (map r_id (tasks d))" "p \<in> set (tasks d)"
    "r_id p = Some i" "r_organization_id p \<noteq> u_organizationId u"
    "b_taskId req = Some i" "time_request_valid isUUID req"
  shows "post_time_handler isUUID d new_id now u req =
           (Fail 403 ''Project not found or does not belong to your organization'', d)
       \<or> post_time_handler isUUID d new_id now u req =
           (Fail 403 ''Task not found or does not belong to your organization'', d)"
proof -
  obtain q where q: "b_projectId req = Some q"
    using time_request_valid_ids [OF assms(7)] by blast
  have sel: "select_owned d (tasks d) [Some i, Some (u_organizationId u)] = Inr []"
    using select_owned_cases [OF assms(1-4), of "u_organizationId u"] assms(5) by simp
  have prj: "\<exists>rows. select_owned d (projects d) [Some q, Some (u_organizationId u)] = Inr rows"
    using select_owned_online [OF assms(1)] by simp
  then obtain rows where rows: "select_owned d (projects d) [Some q, Some (u_organizationId u)] = Inr rows"
    by blast
  show ?thesis
    unfolding post_time_handler_def using assms(6,7) q sel rows
    by (cases rows) simp_all
qed

lemma put_approve_foreign:
  assumes "online d" "pk_unique (map tl_id (time_logs d))" "r \<in> set (time_logs d)"
    "tl_id r = Some (timeLogId b)" "tl_organization_id r \<noteq> u_organizationId u"
    "approve_body_valid isUUID b"
  shows "put_approve isUUID d now u b = (Fail 404 ''Time log not found'', d)"
proof -
  have sel: "select_time_log d [Some (timeLogId b), Some (u_organizationId u)] = Inr []"
    using select_time_log_cases [OF assms(1-4), of "u_organizationId u"] assms(5) by simp
  show ?thesis unfolding put_approve_def using sel assms(6) by simp
qed

lemma get_screenshot_foreign:
  assumes "online d" "pk_unique (map s_id (screenshots d))" "s \<in> set (screenshots d)"
    "s_id s = Some i" "s_organization_id s \<noteq> u_organizationId u"
  shows "get_screenshot uuid_in d u i = (Fail 404 ''Screenshot not found'', d)"
proof -
  have sel: "select_screenshot uuid_in d [i, u_organizationId u] = Inr []"
    using select_screenshot_cases [OF assms(1-4), of uuid_in "u_organizationId u"] assms(5)
    by simp
  show ?thesis unfolding get_screenshot_def using sel by simp
qed

section \<open>Claim C1: tenant isolation\<close>

text \<open>
  C1. An actor of organization \<open>B\<close> who names a resource row of an organization
  \<open>A \<noteq> B\<close> is refused, and nothing in the database changes: approving or rejecting a
  time log answers 404 "Time log not found"; creating a time log against a project or a
  task of \<open>A\<close> answers 403, from the middleware of the route and, on its own, from the
  handler behind it; fetching a screenshot answers 404 "Screenshot not found". The tables
  have their primary keys, the engine answers, the bodies pass the validators of the
  routes, and an id the middleware reads is not the empty string.
\<close>

theorem tenant_isolation:
  assumes "online d" and "u_organizationId u \<noteq> A"
  shows "(\<forall>r \<in> set (time_logs d).
            pk_unique (map tl_id (time_logs d)) \<and> tl_organization_id r = A
            \<and> tl_id r = Some (timeLogId b) \<and> approve_body_valid isUUID b \<longrightarrow>
              put_approve isUUID d now u b = (Fail 404 ''Time log not found'', d))
       \<and> (\<forall>p \<in> set (projects d).
            pk_unique (map r_id (projects d)) \<and> r_organization_id p = A
            \<and> r_id p = Some i \<and> i \<noteq> [] \<longrightarrow>
              (js_or (b_projectId req) (q_projectId req) = Some i \<longrightarrow>
                 (\<exists>m. post_time isUUID uuid_in d new_id now u req = (Fail 403 m, d)))
            \<and> (b_projectId req = Some i \<and> time_request_valid isUUID req \<longrightarrow>
                 (\<exists>m. post_time_handler isUUID d new_id now u req = (Fail 403 m, d))))
       \<and> (\<forall>t \<in> set (tasks d).
            pk_unique (map r_id (tasks d)) \<and> r_organization_id t = A
            \<and> r_id t = Some i \<and> i \<noteq> [] \<longrightarrow>
              (js_or (b_taskId req) (q_taskId req) = Some i \<longrightarrow>
                 (\<exists>m. post_time isUUID uuid_in d new_id now u req = (Fail 403 m, d)))
            \<and> (b_taskId req = Some i \<and> time_request_valid isUUID req \<longrightarrow>
                 (\<exists>m. post_time_handler isUUID d new_id now u req = (Fail 403 m, d))))
       \<and> (\<forall>s \<in> set (screenshots d).
            pk_unique (map s_id (screenshots d)) \<and> s_organization_id s = A
            \<and> s_id s = Some i \<longrightarrow>
              get_screenshot uuid_in d u i = (Fail 404 ''Screenshot not found'', d))"
proof -
  have p1: "put_approve isUUID d now u b = (Fail 404 ''Time log not found'', d)"
    if "r \<in> set (time_logs d)" "pk_unique (map tl_id (time_logs d))" "tl_organization_id r = A"
       "tl_id r = Some (timeLogId b)" "approve_body_valid isUUID b" for r
    using put_approve_foreign [OF assms(1) that(2,1,4) _ that(5)] that(3) assms(2) by simp
  have p2: "\<exists>m. post_time isUUID uuid_in d new_id now u req = (Fail 403 m, d)"
    if "p \<in> set (projects d)" "pk_unique (map r_id (projects d))" "r_organization_id p = A"
       "r_id p = Some i" "i \<noteq> []" "js_or (b_projectId req) (q_projectId req) = Some i" for p
    using post_time_foreign_project [OF assms(1) that(2,1,4) _ that(5,6)] that(3) assms(2)
    by simp
  have p3: "\<exists>m. post_time_handler isUUID d new_id now u req = (Fail 403 m, d)"
    if "p \<in> set (projects d)" "pk_unique (map r_id (projects d))" "r_organization_id p = A"
       "r_id p = Some i" "b_projectId req = Some i" "time_request_valid isUUID req" for p
    using handler_foreign_project [OF assms(1) that(2,1,4) _ that(5,6)] that(3) assms(2)
    by simp
  have p4: "\<exists>m. post_time isUUID uuid_in d new_id now u req = (Fail 403 m, d)"
    if "t \<in> set (tasks d)" "pk_unique (map r_id (tasks d))" "r_organization_id t = A"
       "r_id t = Some i" "i \<noteq> []" "js_or (b_taskId req) (q_taskId req) = Some i" for t
    using post_time_foreign_task [OF assms(1) that(2,1,4) _ that(5,6)] that(3) assms(2)
    by simp
  have p5: "\<exists>m. post_time_handler isUUID d new_id now u req = (Fail 403 m, d)"
    if "t \<in> set (tasks d)" "pk_unique (map r_id (tasks d))" "r_organization_id t = A"
       "r_id t = Some i" "b_taskId req = Some i" "time_request_valid isUUID req" for t
    using handler_foreign_task [OF assms(1) that(2,1,4) _ that(5,6), of u new_id now]
      that(3) assms(2) by auto
  have p6: "get_screenshot uuid_in d u i = (Fail 404 ''Screenshot not found'', d)"
    if "s \<in> set (screenshots d)" "pk_unique (map s_id (screenshots d))"
       "s_organization_id s = A" "s_id s = Some i" for s
    using get_screenshot_foreign [OF assms(1) that(2,1,4)] that(3) assms(2) by simp
  from p1 p2 p3 p4 p5 p6 show ?thesis by blast
qed

theorem tenant_isolation_witness:
  "put_approve any_uuid (demo_db Server) 99 bob \<lparr>timeLogId = ''A'', action = ''approve''\<rparr>
     = (Fail 404 ''Time log not found'', demo_db Server)
   \<and> (\<exists>m. post_time any_uuid demo_uuid_in (demo_db Embedded) ''N'' 99 bob demo_request
            = (Fail 403 m, demo_db Embedded))
   \<and> (\<exists>m. post_time_handler any_uuid (demo_db Server) ''N'' 99 bob demo_request
            = (Fail 403 m, demo_db Server))
   \<and> get_screenshot demo_uuid_in (demo_db Server) bob ''S1''
     = (Fail 404 ''Screenshot not found'', demo_db Server)"
proof -
  have on: "online (demo_db k)" for k by (simp add: demo_db_def)
  have ne: "u_organizationId bob \<noteq> ''orgA''" by (simp add: bob_def)
  note T = tenant_isolation [OF on ne, where b = "\<lparr>timeLogId = ''A'', action = ''approve''\<rparr>"
      and isUUID = any_uuid and i = "''P1''" and req = demo_request and new_id = "''N''"
      and now = 99 and uuid_in = demo_uuid_in]
  note S = tenant_isolation [OF on ne, where isUUID = any_uuid and i = "''S1''"
      and uuid_in = demo_uuid_in]
  have logs: "demo_log ''A'' ''pending'' \<in> set (time_logs (demo_db k))" for k
    by (simp add: demo_db_def)
  have pkl: "pk_unique (map tl_id (time_logs (demo_db k)))" for k
    by (simp add: demo_db_def demo_log_def pk_unique_def)
  have v: "approve_body_valid any_uuid \<lparr>timeLogId = ''A'', action = ''approve''\<rparr>"
    by (simp add: approve_body_valid_def any_uuid_def)
  have a: "put_approve any_uuid (demo_db Server) 99 bob \<lparr>timeLogId = ''A'', action = ''approve''\<rparr>
     = (Fail 404 ''Time log not found'', demo_db Server)"
    using T [of Server, THEN conjunct1, THEN bspec, OF logs] pkl v
    by (simp add: demo_log_def)
  let ?p = "\<lparr>r_id = Some ''P1'', r_organization_id = ''orgA'', r_deleted_at = None\<rparr>"
  have prj: "?p \<in> set (projects (demo_db k))" for k by (simp add: demo_db_def)
  have pkp: "pk_unique (map r_id (projects (demo_db k)))" for k
    by (simp add: demo_db_def pk_unique_def)
  have rq: "js_or (b_projectId demo_request) (q_projectId demo_request) = Some ''P1''"
       "b_projectId demo_request = Some ''P1''"
       "time_request_valid any_uuid demo_request"
    by (simp_all add: demo_request_def js_or_def truthy_def time_request_valid_def any_uuid_def)
  have b: "\<exists>m. post_time any_uuid demo_uuid_in (demo_db Embedded) ''N'' 99 bob demo_request
            = (Fail 403 m, demo_db Embedded)"
    using T [of Embedded, THEN conjunct2, THEN conjunct1, THEN bspec, OF prj] pkp rq
    by simp
  have c: "\<exists>m. post_time_handler any_uuid (demo_db Server) ''N'' 99 bob demo_request
            = (Fail 403 m, demo_db Server)"
    using T [of Server, THEN conjunct2, THEN conjunct1, THEN bspec, OF prj] pkp rq
    by simp
  have sh: "demo_shot \<in> set (screenshots (demo_db k))" for k by (simp add: demo_db_def)
  have pks: "pk_unique (map s_id (screenshots (demo_db k)))" for k
    by (simp add: demo_db_def demo_shot_def pk_unique_def)
  have e: "get_screenshot demo_uuid_in (demo_db Server) bob ''S1''
     = (Fail 404 ''Screenshot not found'', demo_db Server)"
    using S [of Server, THEN conjunct2, THEN conjunct2, THEN conjunct2, THEN bspec, OF sh] pks
    by (simp add: demo_shot_def)
  from a b c e show ?thesis by blast
qed

lemma those_map_Some: "those (map Some xs) = Some xs"
  by (induction xs) simp_all

lemma map_upt_Some:
  "map (\<lambda>i. if i < length ps then Some (ps ! i) else None) [0..<length ps] = map Some ps"
  by (rule nth_equalityI) simp_all

lemma bound_Embedded_all:
  "length ks = length ps \<Longrightarrow> bound Embedded ks ps = map Some ps"
  by (simp add: bound_def map_upt_Some)

lemma bound_Server_verify:
  "bound Server (map (\<lambda>i. i + 2) [0..<length ids] @ [1]) (org # ids) = map Some ids @ [Some org]"
proof -
  have "map (\<lambda>k. if 1 \<le> k \<and> k \<le> length (org # ids) then Some ((org # ids) ! (k - 1)) else None)
          (map (\<lambda>i. i + 2) [0..<length ids]) = map Some ids"
    by (rule nth_equalityI) simp_all
  then show ?thesis by (simp add: bound_def)
qed

lemma bound_Server_update:
  assumes ne: "ids \<noteq> []"
  shows "bound Server ([1, length ids + 2] @ map (\<lambda>i. i + 2) [0..<length ids]) (s # a # ids)
     = map Some (s # last ids # a # butlast ids)"
proof -
  have l: "(a # ids) ! length ids = last ids"
    using ne by (simp add: last_conv_nth nth_Cons')
  have "map (\<lambda>k. if 1 \<le> k \<and> k \<le> length (s # a # ids) then Some ((s # a # ids) ! (k - 1)) else None)
          (map (\<lambda>i. i + 2) [0..<length ids]) = map Some (a # butlast ids)"
  proof (rule nth_equalityI)
    show "length (map (\<lambda>k. if 1 \<le> k \<and> k \<le> length (s # a # ids)
                          then Some ((s # a # ids) ! (k - 1)) else None)
                 (map (\<lambda>i. i + 2) [0..<length ids])) = length (map Some (a # butlast ids))"
      using ne by simp
  next
    fix i
    assume "i < length (map (\<lambda>k. if 1 \<le> k \<and> k \<le> length (s # a # ids)
                          then Some ((s # a # ids) ! (k - 1)) else None)
                 (map (\<lambda>i. i + 2) [0..<length ids]))"
    then have i: "i < length ids" by simp
    then show "map (\<lambda>k. if 1 \<le> k \<and> k \<le> length (s # a # ids)
                          then Some ((s # a # ids) ! (k - 1)) else None)
                 (map (\<lambda>i. i + 2) [0..<length ids]) ! i = map Some (a # butlast ids) ! i"
      by (cases i) (simp_all add: nth_butlast)
  qed
  then show ?thesis using l by (simp add: bound_def)
qed


lemma query_Server:
  "online d \<Longrightarrow> backend d = Server \<Longrightarrow> bound Server ks ps = map Some vs \<Longrightarrow>
   query d ks ps stmt = stmt vs"
  by (simp add: query_def those_map_Some)

lemma query_Embedded:
  "online d \<Longrightarrow> backend d = Embedded \<Longrightarrow> length ks = length ps \<Longrightarrow>
   query d ks ps stmt = stmt ps"
  by (simp add: query_def bound_Embedded_all those_map_Some)

lemma query_offline: "\<not> online d \<Longrightarrow> query d ks ps stmt = Inl StorageError"
  by (simp add: query_def)

lemma in_Some_ids: "(\<exists>i \<in> set (map Some ids). sql_eq a i) = (\<exists>j \<in> set ids. a = Some j)"
  by (auto simp: sql_eq_def)

lemma select_batch_Server:
  assumes "online d" "backend d = Server" "ids \<noteq> []"
  shows "select_batch d (length ids) (Some org # map Some ids) =
     Inr (filter (\<lambda>r. (\<exists>j \<in> set ids. tl_id r = Some j)
                       \<and> tl_organization_id r = org \<and> tl_deleted_at r = None) (time_logs d))"
proof -
  have b: "bound Server (map (\<lambda>i. i + 2) [0..<length ids] @ [1]) (Some org # map Some ids)
         = map Some (map Some ids @ [Some org])"
    using bound_Server_verify [of "map Some ids" "Some org"] by simp
  have "\<And>r. (\<exists>i \<in> set (rev (map Some ids)). sql_eq (tl_id r) i) = (\<exists>j \<in> set ids. tl_id r = Some j)"
    using in_Some_ids by (metis set_rev)
  then show ?thesis
    unfolding select_batch_def query_Server [OF assms(1,2) b] using assms(3)
    by (simp add: sql_eq_Some_Some sql_eq_Some)
qed

lemma select_batch_offline:
  "\<not> online d \<Longrightarrow> select_batch d n ps = Inl StorageError"
  by (simp add: select_batch_def query_offline)


lemma distinct_keys_filter:
  "pk_unique (map key xs) \<Longrightarrow> (\<forall>x \<in> set xs. P x \<longrightarrow> key x \<noteq> None) \<Longrightarrow>
   distinct (map key (filter P xs))"
proof (induction xs)
  case Nil
  then show ?case by simp
next
  case (Cons a xs)
  have pk: "pk_unique (map key xs)"
    using Cons.prems(1) by (auto simp: pk_unique_def split: if_splits)
  have ih: "distinct (map key (filter P xs))"
    using Cons.IH [OF pk] Cons.prems(2) by simp
  show ?case
  proof (cases "P a")
    case True
    then have "key a \<noteq> None" using Cons.prems(2) by simp
    then have "key a \<notin> set (map key xs)"
      using Cons.prems(1) by (auto simp: pk_unique_def)
    then have "key a \<notin> set (map key (filter P xs))" by auto
    then show ?thesis using True ih by simp
  next
    case False
    then show ?thesis using ih by simp
  qed
qed

lemma listed_distinct:
  "pk_unique (map tl_id (time_logs d)) \<Longrightarrow> distinct (map tl_id (listed d u ids))"
  unfolding listed_def by (rule distinct_keys_filter) auto

lemma listed_ids: "set (map tl_id (listed d u ids)) = Some ` {i \<in> set ids. owned_alive d u i}"
proof (intro set_eqI iffI)
  fix k assume "k \<in> set (map tl_id (listed d u ids))"
  then obtain r where r: "r \<in> set (time_logs d)" "k = tl_id r"
      "\<exists>j \<in> set ids. tl_id r = Some j"
      "tl_organization_id r = u_organizationId u" "tl_deleted_at r = None"
    by (auto simp: listed_def)
  then obtain j where j: "j \<in> set ids" "tl_id r = Some j" by blast
  have "owned_alive d u j" unfolding owned_alive_def using r j by blast
  then show "k \<in> Some ` {i \<in> set ids. owned_alive d u i}" using j r(2) by simp
next
  fix k assume "k \<in> Some ` {i \<in> set ids. owned_alive d u i}"
  then obtain i where i: "k = Some i" "i \<in> set ids" "owned_alive d u i" by blast
  then obtain r where r: "r \<in> set (time_logs d)" "tl_id r = Some i"
      "tl_organization_id r = u_organizationId u" "tl_deleted_at r = None"
    unfolding owned_alive_def by blast
  then have "r \<in> set (listed d u ids)" using i(2) by (auto simp: listed_def)
  then show "k \<in> set (map tl_id (listed d u ids))" using r(2) i(1) by force
qed

lemma listed_length:
  assumes "pk_unique (map tl_id (time_logs d))"
  shows "length (listed d u ids) = card {i \<in> set ids. owned_alive d u i}"
proof -
  have "length (listed d u ids) = length (map tl_id (listed d u ids))" by simp
  also have "\<dots> = card (set (map tl_id (listed d u ids)))"
    using listed_distinct [OF assms] by (simp only: distinct_card)
  also have "\<dots> = card (Some ` {i \<in> set ids. owned_alive d u i})"
    by (simp only: listed_ids)
  also have "\<dots> = card {i \<in> set ids. owned_alive d u i}"
    by (rule card_image) simp
  finally show ?thesis .
qed

lemma listed_short:
  assumes "pk_unique (map tl_id (time_logs d))" "bad \<in> set ids" "\<not> owned_alive d u bad"
  shows "length (listed d u ids) < length ids"
proof -
  have "{i \<in> set ids. owned_alive d u i} \<subset> set ids"
    using assms(2,3) by auto
  then have "card {i \<in> set ids. owned_alive d u i} < card (set ids)"
    by (simp add: psubset_card_mono)
  also have "\<dots> \<le> length ids" by (rule card_length)
  finally show ?thesis using listed_length [OF assms(1)] by simp
qed

lemma select_batch_Server_listed:
  "online d \<Longrightarrow> backend d = Server \<Longrightarrow> ids \<noteq> [] \<Longrightarrow>
   select_batch d (length ids) (Some (u_organizationId u) # map Some ids) = Inr (listed d u ids)"
  by (simp add: select_batch_Server listed_def)

text \<open>
  The handler of \<^verbatim>\<open>PUT /bulk-approve\<close>, taken without the gate in front of it, on the
  server store: when one of the ids names no row that exists, is not deleted and belongs to
  the actor's organization, the reply is the 400 "Some time logs were not found or do not
  belong to your organization" and the database is unchanged.
\<close>

lemma bulk_handler_server_refuses:
  assumes "online d" and "backend d = Server" and "pk_unique (map tl_id (time_logs d))"
    and "bulk_body_valid isUUID b"
    and "\<exists>i \<in> set (timeLogIds b). \<not> owned_alive d u i"
  shows "put_bulk_approve isUUID d now u b =
           (Fail 400 ''Some time logs were not found or do not belong to your organization'', d)"
proof -
  obtain bad where bad: "bad \<in> set (timeLogIds b)" "\<not> owned_alive d u bad"
    using assms(5) by blast
  have ne: "timeLogIds b \<noteq> []" using bad(1) by auto
  have sel: "select_batch d (length (timeLogIds b))
               (Some (u_organizationId u) # map Some (timeLogIds b)) = Inr (listed d u (timeLogIds b))"
    by (rule select_batch_Server_listed [OF assms(1,2) ne])
  have "length (listed d u (timeLogIds b)) \<noteq> length (timeLogIds b)"
    using listed_short [OF assms(3) bad] by simp
  then show ?thesis
    unfolding put_bulk_approve_def sel using assms(4) by simp
qed

lemma update_where_db:
  "update_where d hit f = Inr (ch, d') \<Longrightarrow>
   d' = d\<lparr>time_logs := map (\<lambda>r. if hit r then f r else r) (time_logs d)\<rparr>
   \<and> ch = map f (filter hit (time_logs d))"
  by (auto simp: update_where_def Let_def split: if_splits)

lemma update_batch_vs:
  assumes "online d"
  shows "\<exists>a ids. update_batch d now (length pids) (Some s # Some v # pids) =
           update_where d
             (\<lambda>r. (\<exists>i \<in> set ids. sql_eq (tl_id r) i) \<and> tl_status r = Some ''pending'')
             (decide (Some s) a now)"
proof (cases "backend d")
  case Server
  show ?thesis
  proof (cases "pids = []")
    case True
    have "update_batch d now (length pids) (Some s # Some v # pids) =
           update_where d
             (\<lambda>r. (\<exists>i \<in> set []. sql_eq (tl_id r) i) \<and> tl_status r = Some ''pending'')
             (decide (Some s) (Some v) now)"
      unfolding update_batch_def using True assms
      by (simp add: query_def bound_def Server)
    then show ?thesis by blast
  next
    case False
    have b: "bound Server ([1, length pids + 2] @ map (\<lambda>i. i + 2) [0..<length pids])
               (Some s # Some v # pids) = map Some (Some s # last pids # Some v # butlast pids)"
      by (rule bound_Server_update [OF False])
    have "update_batch d now (length pids) (Some s # Some v # pids) =
           update_where d
             (\<lambda>r. (\<exists>i \<in> set (Some v # butlast pids). sql_eq (tl_id r) i)
                   \<and> tl_status r = Some ''pending'')
             (decide (Some s) (last pids) now)"
      unfolding update_batch_def query_Server [OF assms Server b] by simp
    then show ?thesis by blast
  qed
next
  case Embedded
  have len: "length ([1, length pids + 2] @ map (\<lambda>i. i + 2) [0..<length pids])
           = length (Some s # Some v # pids)" by simp
  have "update_batch d now (length pids) (Some s # Some v # pids) =
           update_where d
             (\<lambda>r. (\<exists>i \<in> set pids. sql_eq (tl_id r) i) \<and> tl_status r = Some ''pending'')
             (decide (Some s) (Some v) now)"
    unfolding update_batch_def query_Embedded [OF assms Embedded len] by simp
  then show ?thesis by blast
qed

lemma update_batch_db:
  assumes "update_batch d now (length pids) (Some s # Some v # pids) = Inr (ch, d')"
  shows "\<exists>a ids. d' = d\<lparr>time_logs :=
            map (\<lambda>r. if (\<exists>i \<in> set ids. sql_eq (tl_id r) i) \<and> tl_status r = Some ''pending''
                      then decide (Some s) a now r else r)
              (time_logs d)\<rparr>"
proof (cases "online d")
  case True
  from update_batch_vs [OF True, of now pids s v] obtain a ids where eq:
    "update_batch d now (length pids) (Some s # Some v # pids) =
           update_where d
             (\<lambda>r. (\<exists>i \<in> set ids. sql_eq (tl_id r) i) \<and> tl_status r = Some ''pending'')
             (decide (Some s) a now)" by blast
  have "update_where d
             (\<lambda>r. (\<exists>i \<in> set ids. sql_eq (tl_id r) i) \<and> tl_status r = Some ''pending'')
             (decide (Some s) a now) = Inr (ch, d')"
    using assms unfolding eq .
  from update_where_db [OF this] have "d' = d\<lparr>time_logs :=
        map (\<lambda>r. if (\<exists>i \<in> set ids. sql_eq (tl_id r) i) \<and> tl_status r = Some ''pending''
                  then decide (Some s) a now r else r) (time_logs d)\<rparr>"
    by (rule conjunct1)
  then show ?thesis by blast
next
  case False
  then show ?thesis using assms by (simp add: update_batch_def query_offline)
qed

lemma put_bulk_approve_db:
  assumes "put_bulk_approve isUUID d now u b = (rep, d')"
  shows "d' = d \<or> (\<exists>a ids. d' = d\<lparr>time_logs :=
            map (\<lambda>r. if (\<exists>i \<in> set ids. sql_eq (tl_id r) i) \<and> tl_status r = Some ''pending''
                      then decide (Some (new_status (bulk_action b))) a now r else r)
              (time_logs d)\<rparr>)"
proof -
  let ?rows = "select_batch d (length (timeLogIds b))
                 (Some (u_organizationId u) # map Some (timeLogIds b))"
  show ?thesis
  proof (cases ?rows)
    case (Inl e)
    then have "snd (put_bulk_approve isUUID d now u b) = d"
      unfolding put_bulk_approve_def by simp
    with assms show ?thesis by simp
  next
    case (Inr rows)
    let ?pending = "filter (\<lambda>log. tl_status log = Some ''pending'') rows"
    let ?upd = "update_batch d now (length (map tl_id ?pending))
                  (Some (new_status (bulk_action b)) # Some (u_id u) # map tl_id ?pending)"
    show ?thesis
    proof (cases ?upd)
      case (Inl e)
      then have "snd (put_bulk_approve isUUID d now u b) = d"
        unfolding put_bulk_approve_def Let_def Inr by simp
      with assms show ?thesis by simp
    next
      case updated: (Inr p)
      obtain ch d2 where p: "p = (ch, d2)" by (cases p)
      have "snd (put_bulk_approve isUUID d now u b) = d \<or> snd (put_bulk_approve isUUID d now u b) = d2"
        unfolding put_bulk_approve_def Let_def Inr using updated p by simp
      moreover have "\<exists>a ids. d2 = d\<lparr>time_logs :=
            map (\<lambda>r. if (\<exists>i \<in> set ids. sql_eq (tl_id r) i) \<and> tl_status r = Some ''pending''
                      then decide (Some (new_status (bulk_action b))) a now r else r)
              (time_logs d)\<rparr>"
        using update_batch_db updated p by blast
      ultimately show ?thesis using assms by auto
    qed
  qed
qed


lemma bulk_rows_kept:
  assumes "put_bulk_approve isUUID d now u b = (rep, d')"
  shows "length (time_logs d') = length (time_logs d)
       \<and> (\<forall>k < length (time_logs d).
             time_logs d' ! k = time_logs d ! k
             \<or> (tl_status (time_logs d ! k) = Some ''pending''
                \<and> tl_status (time_logs d' ! k) = Some (new_status (bulk_action b))
                \<and> tl_approved_at (time_logs d' ! k) = Some now))"
  using put_bulk_approve_db [OF assms]
proof
  assume "d' = d"
  then show ?thesis by simp
next
  assume "\<exists>a ids. d' = d\<lparr>time_logs :=
            map (\<lambda>r. if (\<exists>i \<in> set ids. sql_eq (tl_id r) i) \<and> tl_status r = Some ''pending''
                      then decide (Some (new_status (bulk_action b))) a now r else r)
              (time_logs d)\<rparr>"
  then obtain a ids where "d' = d\<lparr>time_logs :=
            map (\<lambda>r. if (\<exists>i \<in> set ids. sql_eq (tl_id r) i) \<and> tl_status r = Some ''pending''
                      then decide (Some (new_status (bulk_action b))) a now r else r)
              (time_logs d)\<rparr>" by blast
  then have logs: "time_logs d' =
            map (\<lambda>r. if (\<exists>i \<in> set ids. sql_eq (tl_id r) i) \<and> tl_status r = Some ''pending''
                      then decide (Some (new_status (bulk_action b))) a now r else r)
              (time_logs d)" by simp
  show ?thesis unfolding logs by (simp add: decide_fields)
qed

text \<open>
  The handler of the bulk route on a body with no id at all, which the validators let
  through: the server store rejects the empty list of the verification, the embedded store
  finds nothing pending.
\<close>

lemma bulk_empty_list:
  "bulk_body_valid any_uuid \<lparr>timeLogIds = [], bulk_action = ''approve''\<rparr>"
  "put_bulk_approve any_uuid (demo_db Server) 99 ann
     \<lparr>timeLogIds = [], bulk_action = ''approve''\<rparr>
   = (Fail 500 ''Failed to bulk approve/reject time logs'', demo_db Server)"
  "put_bulk_approve any_uuid (demo_db Embedded) 99 ann
     \<lparr>timeLogIds = [], bulk_action = ''approve''\<rparr>
   = (Fail 400 ''No pending time logs found in the selected entries'', demo_db Embedded)"
  by code_simp+

lemma validate_shapes:
  "validateProject uuid_in d u req = None
   \<or> (\<exists>m. validateProject uuid_in d u req = Some (Fail 403 m))"
  "validateTask uuid_in d u req = None
   \<or> (\<exists>m. validateTask uuid_in d u req = Some (Fail 403 m))"
  by (simp_all add: validateProject_def validateTask_def Let_def split: validation.split)

lemma post_time_duration:
  assumes "b_durationMs req \<le> 0"
  shows "snd (post_time isUUID uuid_in d new_id now u req) = d
       \<and> is_fail (fst (post_time isUUID uuid_in d new_id now u req))"
proof -
  have inv: "\<not> time_request_valid isUUID req"
    using assms by (simp add: time_request_valid_def)
  have h: "post_time_handler isUUID d new_id now u req = (Fail 400 ''Validation failed'', d)"
    using inv by (simp add: post_time_handler_def)
  show ?thesis
    using h validate_shapes [of uuid_in d u req]
    by (auto simp: post_time_def is_fail_def)
qed

lemma insert_time_log_server_checks:
  "backend d = Server \<Longrightarrow> tl_end_time r \<le> tl_start_time r \<or> tl_duration_ms r \<le> 0 \<Longrightarrow>
   insert_time_log d r = Inl StorageError"
  by (auto simp: insert_time_log_def insert_ok_def)

lemma post_time_handler_server_range:
  assumes "backend d = Server" "b_endTime req \<le> b_startTime req"
  shows "snd (post_time_handler isUUID d new_id now u req) = d
       \<and> is_fail (fst (post_time_handler isUUID d new_id now u req))"
proof -
  have ins: "insert_time_log d (new_time_log d new_id now u req p t) = Inl StorageError" for p t
    by (rule insert_time_log_server_checks [OF assms(1)]) (simp add: new_time_log_def assms(2))
  show ?thesis
    unfolding post_time_handler_def
    by (simp add: ins is_fail_def split: option.split sum.split list.split)
qed

lemma post_time_server_range:
  assumes "backend d = Server" "b_endTime req \<le> b_startTime req"
  shows "snd (post_time isUUID uuid_in d new_id now u req) = d
       \<and> is_fail (fst (post_time isUUID uuid_in d new_id now u req))"
  using post_time_handler_server_range [OF assms, of isUUID new_id now u]
    validate_shapes [of uuid_in d u req]
  by (auto simp: post_time_def is_fail_def)

section \<open>Claim C7: a time log whose end is not after its start\<close>

text \<open>
  C7. On the embedded store the route writes the row: the handler compares no times, and
  the embedded schema has neither \<^verbatim>\<open>valid_time_range\<close> nor \<^verbatim>\<open>valid_duration\<close>. Ann posts
  a log that starts at 200 and ends at 100; the reply is 201 and the table has a fourth row
  whose end is before its start. (A duration below 1 is refused by the validator on both
  stores, and the server store refuses the range by its check: the three lemmas above.)
\<close>

theorem post_time_embedded_writes_bad_range:
  "post_time any_uuid demo_uuid_in (demo_db Embedded) ''N'' 99 ann
     (demo_request\<lparr>b_startTime := 200, b_endTime := 100, b_durationMs := 1\<rparr>)
   = (Ok 201 ''Time log created successfully''
        (Created (new_time_log (demo_db Embedded) ''N'' 99 ann
           (demo_request\<lparr>b_startTime := 200, b_endTime := 100, b_durationMs := 1\<rparr>)
           ''P1'' ''T1'')),
      (demo_db Embedded)\<lparr>time_logs :=
         time_logs (demo_db Embedded) @
           [new_time_log (demo_db Embedded) ''N'' 99 ann
              (demo_request\<lparr>b_startTime := 200, b_endTime := 100, b_durationMs := 1\<rparr>)
              ''P1'' ''T1'']\<rparr>)
   \<and> tl_end_time (new_time_log (demo_db Embedded) ''N'' 99 ann
         (demo_request\<lparr>b_startTime := 200, b_endTime := 100, b_durationMs := 1\<rparr>)
         ''P1'' ''T1'')
     < tl_start_time (new_time_log (demo_db Embedded) ''N'' 99 ann
         (demo_request\<lparr>b_startTime := 200, b_endTime := 100, b_durationMs := 1\<rparr>)
         ''P1'' ''T1'')"
  by code_simp

lemma placeholders_verifyQuery:
  "placeholders (verifyQuery 3) = map (\<lambda>i. i + 2) [0..<3] @ [1]"
  by code_simp

lemma placeholders_updateQuery:
  "placeholders (updateQuery 2) = [1, 2 + 2] @ map (\<lambda>i. i + 2) [0..<2]"
  by code_simp

lemma adapters_agree_ascending:
  "bound Server [1..<Suc (length ps)] ps = map Some ps
   \<and> bound Embedded [1..<Suc (length ps)] ps = map Some ps"
proof
  have "map (\<lambda>k. if 1 \<le> k \<and> k \<le> length ps then Some (ps ! (k - 1)) else None)
          [1..<Suc (length ps)] = map Some ps"
    by (rule nth_equalityI) (simp_all del: upt_Suc)
  then show "bound Server [1..<Suc (length ps)] ps = map Some ps"
    by (simp add: bound_def del: upt_Suc)
  show "bound Embedded [1..<Suc (length ps)] ps = map Some ps"
    by (rule bound_Embedded_all) (simp del: upt_Suc)
qed

section \<open>Claim C9: the two adapters on one statement\<close>

text \<open>
  C9. The statement with which the bulk route verifies one id is
  \<^verbatim>\<open>... WHERE id IN ($2) AND organization_id = $1 ...\<close>, run with the parameters
  \<^verbatim>\<open>[organizationId, timeLogId]\<close>: each of \<^verbatim>\<open>$1\<close>, \<^verbatim>\<open>$2\<close> once, two parameters. The
  server store gives the id list the time log id and \<^verbatim>\<open>organization_id\<close> the organization.
  The embedded store rewrites both placeholders to \<^verbatim>\<open>?\<close> and gives them the parameters in
  the order of the text: the id list gets the organization, \<^verbatim>\<open>organization_id\<close> the time
  log id. On the same rows the server store finds Ann's log \<open>A\<close> and the embedded store
  finds nothing. (Where the numbers ascend in the text the two agree: lemma
  \<open>adapters_agree_ascending\<close>.)
\<close>

theorem adapters_differ_on_verifyQuery:
  "placeholders (verifyQuery 1) = [2, 1]
   \<and> sqliteQuery (verifyQuery 1) =
       ''SELECT id, status FROM time_logs WHERE id IN (?) AND organization_id = ? AND deleted_at IS NULL''
   \<and> bound Server (placeholders (verifyQuery 1)) [''orgA'', ''A''] = [Some ''A'', Some ''orgA'']
   \<and> bound Embedded (placeholders (verifyQuery 1)) [''orgA'', ''A''] = [Some ''orgA'', Some ''A'']
   \<and> select_batch (demo_db Server) 1 [Some ''orgA'', Some ''A''] = Inr [demo_log ''A'' ''pending'']
   \<and> select_batch (demo_db Embedded) 1 [Some ''orgA'', Some ''A''] = Inr []"
  by code_simp

section \<open>The role gate as the routes call it\<close>

text \<open>
  Called with the roles as separate arguments the gate admits an admin or a manager. Called
  as the routes call it, with one array, it admits nobody: the approve routes answer 403 to
  every authenticated user and never reach their handlers.
\<close>

lemma authorize_separate_arguments:
  "u_role u \<in> {''admin'', ''manager''} \<Longrightarrow>
   authorize [JStr ''admin'', JStr ''manager''] (Some u) = None"
  by (auto simp: authorize_def)

lemma authorize_route_roles:
  "authorize route_roles (Some u) =
     Some (Fail 403 ''Insufficient permissions. Required role: admin,manager'')"
  by (simp add: authorize_def route_roles_def)

lemma approve_routes_refuse:
  "put_approve_route isUUID d now u b =
     (Fail 403 ''Insufficient permissions. Required role: admin,manager'', d)"
  "put_bulk_approve_route isUUID d now u b' =
     (Fail 403 ''Insufficient permissions. Required role: admin,manager'', d)"
  by (simp_all add: put_approve_route_def put_bulk_approve_route_def authorize_route_roles)

section \<open>Claim C4: approving or rejecting one time log\<close>

text \<open>
  C4. The route \<^verbatim>\<open>PUT /approve\<close>, as it is registered, does not do what the claim says
  on any call, because the gate in front refuses every user. Ann is an admin of the
  organization that owns the time logs \<open>A\<close>, pending, and \<open>B\<close>, approved. Her call to
  approve \<open>A\<close> is answered 403 "Insufficient permissions. Required role: admin,manager"
  and \<open>A\<close> stays pending: no update sets status, \<open>approved_by\<close> and \<open>approved_at\<close>. Her
  call on \<open>B\<close> gets the same 403 and not the conflict that names the current status. The
  handler behind the gate, called on its own, approves \<open>A\<close> in one update and answers the
  call on \<open>B\<close> with the 400 "Time log is already approved".
\<close>

theorem put_approve_route_refuses_admin:
  "u_role ann = ''admin''
   \<and> time_logs (demo_db Server)
       = [demo_log ''A'' ''pending'', demo_log ''B'' ''approved'', demo_log ''C'' ''pending'']
   \<and> tl_organization_id (demo_log ''A'' ''pending'') = u_organizationId ann
   \<and> put_approve_route any_uuid (demo_db Server) 99 ann
         \<lparr>timeLogId = ''A'', action = ''approve''\<rparr>
       = (Fail 403 ''Insufficient permissions. Required role: admin,manager'', demo_db Server)
   \<and> put_approve_route any_uuid (demo_db Server) 99 ann
         \<lparr>timeLogId = ''B'', action = ''approve''\<rparr>
       = (Fail 403 ''Insufficient permissions. Required role: admin,manager'', demo_db Server)
   \<and> put_approve any_uuid (demo_db Server) 99 ann \<lparr>timeLogId = ''A'', action = ''approve''\<rparr>
       = (Ok 200 ''Time log approved successfully''
            (Decided \<lparr>d_id = Some ''A'', d_status = Some ''approved'', d_approvedAt = Some 99,
                      d_approvedBy_id = ''ann'', d_approvedBy_name = ''Ann Lee''\<rparr>),
          (demo_db Server)\<lparr>time_logs :=
            [(demo_log ''A'' ''pending'')\<lparr>tl_status := Some ''approved'',
                tl_approved_by := Some ''ann'', tl_approved_at := Some 99,
                tl_updated_at := 99\<rparr>,
             demo_log ''B'' ''approved'', demo_log ''C'' ''pending'']\<rparr>)
   \<and> put_approve any_uuid (demo_db Server) 99 ann \<lparr>timeLogId = ''B'', action = ''approve''\<rparr>
       = (Fail 400 ''Time log is already approved'', demo_db Server)"
  by code_simp

section \<open>Claim C2: a bulk call on pending and decided entries\<close>

text \<open>
  C2. The claim's own example. Ann, an admin, approves the ids \<open>A\<close>, \<open>B\<close>, \<open>C\<close> of her
  organization, \<open>A\<close> and \<open>C\<close> pending and \<open>B\<close> approved; all three pass the check of
  existence and ownership. The route \<^verbatim>\<open>PUT /bulk-approve\<close> as registered answers 403 at
  the gate. The handler behind the gate, called on its own, does not report
  \<open>approved = 2, skipped = 1\<close> either. On the server store the update gets its parameters
  as \<^verbatim>\<open>[newStatus, req.user.id, ...pendingIds]\<close> while its placeholders are
  \<^verbatim>\<open>$1\<close>, \<^verbatim>\<open>$n+2\<close>, \<^verbatim>\<open>$2..$n+1\<close>: the caller's id lands in the id list and the
  last pending id, \<open>C\<close>, in \<open>approved_by\<close>, which is no user, and the reply is 500. On the
  embedded store the verification is bound in the order of the text and the reply is the
  400 of a failed ownership check. In all three cases no row changes.
\<close>

theorem put_bulk_approve_example_fails:
  "u_role ann = ''admin''
   \<and> list_all (owned_alive (demo_db Server) ann) [''A'', ''B'', ''C'']
   \<and> map tl_status (listed (demo_db Server) ann [''A'', ''B'', ''C''])
       = [Some ''pending'', Some ''approved'', Some ''pending'']
   \<and> put_bulk_approve_route any_uuid (demo_db Server) 99 ann
         \<lparr>timeLogIds = [''A'', ''B'', ''C''], bulk_action = ''approve''\<rparr>
       = (Fail 403 ''Insufficient permissions. Required role: admin,manager'', demo_db Server)
   \<and> put_bulk_approve any_uuid (demo_db Server) 99 ann
         \<lparr>timeLogIds = [''A'', ''B'', ''C''], bulk_action = ''approve''\<rparr>
       = (Fail 500 ''Failed to bulk approve/reject time logs'', demo_db Server)
   \<and> put_bulk_approve any_uuid (demo_db Embedded) 99 ann
         \<lparr>timeLogIds = [''A'', ''B'', ''C''], bulk_action = ''approve''\<rparr>
       = (Fail 400 ''Some time logs were not found or do not belong to your organization'',
          demo_db Embedded)"
  by code_simp

text \<open>
  With one pending id the misbound update of the server store does not fail but finds no
  row: the reply counts no approved entry and the pending entry stays pending.
\<close>

lemma bulk_example_two:
  "put_bulk_approve any_uuid (demo_db Server) 99 ann
     \<lparr>timeLogIds = [''A'', ''B''], bulk_action = ''approve''\<rparr>
   = (Ok 200 ''0 time log(s) approved successfully''
        (Bulk \<lparr>approved = 0, total = 2, skipped = 1\<rparr>), demo_db Server)"
  by code_simp

section \<open>Claim C3: a bulk call that names a foreign or missing entry\<close>

text \<open>
  C3. Ann, an admin, sends the ids \<open>A\<close>, \<open>B\<close> and \<open>Z\<close>, where no time log has the id
  \<open>Z\<close>. The route as registered reports no ownership or existence failure: it answers the
  403 of the gate, as it does to every call. The handler behind the gate makes the check the
  claim describes on the server store (lemma \<open>bulk_handler_server_refuses\<close>), but not on
  the embedded store, where the verification compares the ids of the time logs with the
  actor's organization and \<^verbatim>\<open>organization_id\<close> with the last id sent. In \<open>clash_db\<close>
  the one time log belongs to Ann's organization. Bob, of the other organization, sends as
  the only id the id of Ann's organization, which names no time log of his: the handler
  answers 200 with \<open>approved = 1\<close> and the foreign time log is approved in Bob's name.
\<close>

theorem put_bulk_approve_foreign_id:
  "owned_alive (demo_db Server) ann ''Z'' = False
   \<and> put_bulk_approve_route any_uuid (demo_db Server) 99 ann
         \<lparr>timeLogIds = [''A'', ''B'', ''Z''], bulk_action = ''approve''\<rparr>
       = (Fail 403 ''Insufficient permissions. Required role: admin,manager'', demo_db Server)
   \<and> backend clash_db = Embedded
   \<and> map tl_organization_id (time_logs clash_db) = [''orgA'']
   \<and> u_organizationId bob = ''orgB''
   \<and> owned_alive clash_db bob ''orgA'' = False
   \<and> put_bulk_approve any_uuid clash_db 99 bob
         \<lparr>timeLogIds = [''orgA''], bulk_action = ''approve''\<rparr>
       = (Ok 200 ''1 time log(s) approved successfully''
            (Bulk \<lparr>approved = 1, total = 1, skipped = 0\<rparr>),
          clash_db\<lparr>time_logs :=
            [(demo_log ''orgB'' ''pending'')\<lparr>tl_status := Some ''approved'',
                tl_approved_by := Some ''bob'', tl_approved_at := Some 99,
                tl_updated_at := 99\<rparr>]\<rparr>)"
  by code_simp

lemma group_count_total: "sum_list (map snd (group_count ks)) = length ks"
proof -
  have "sum_list (map snd (group_count ks)) = sum_list (map (count_list ks) (remdups ks))"
    by (simp add: group_count_def o_def)
  also have "\<dots> = sum (count_list ks) (set ks)"
    using sum_list_distinct_conv_sum_set [of "remdups ks" "count_list ks"] by simp
  also have "\<dots> = length ks"
    by (rule sum_count_set) simp_all
  finally show ?thesis .
qed

lemma select_day_online:
  "online d \<Longrightarrow>
   select_day d [a, b] = Inr (filter (\<lambda>w. a \<le> w_timestamp w \<and> w_timestamp w \<le> b) (web_logs d))"
  unfolding select_day_def query_2 by simp

section \<open>Claim C10: the web statistics do not depend on the caller\<close>

text \<open>
  C10. \<open>GET /web-stats\<close> gives any two requests the same reply, changes nothing, and
  answers a request without credentials with 200 whenever the engine answers; its total is
  the number of all rows of \<open>web_logs\<close> whose timestamp lies in the current day, whoever
  recorded them. The rows carry no organization: the guard's lookup of
  \<^verbatim>\<open>organization_id\<close> does not exist for the table. Of the \<^verbatim>\<open>GET\<close> routes of the
  routers it is the only one without \<^verbatim>\<open>authenticate\<close>.
\<close>

theorem web_stats_caller_independent:
  "get_web_stats percent tz d now req1 = get_web_stats percent tz d now req2
   \<and> snd (get_web_stats percent tz d now req1) = d
   \<and> org_rows d ''web_logs'' = None
   \<and> filter (\<lambda>r. ''authenticate'' \<notin> set (snd r)) get_routes = [(''/api/report/web-stats'', [])]
   \<and> (online d \<longrightarrow>
        (\<exists>st. fst (get_web_stats percent tz d now \<lparr>authorization = None\<rparr>)
                 = Ok 200 [] (Stats st)
           \<and> ws_total st =
               length (filter (\<lambda>w. start_of_day tz now \<le> w_timestamp w
                                  \<and> w_timestamp w \<le> start_of_day tz now + 86399999)
                         (web_logs d))))"
proof -
  have p1: "get_web_stats percent tz d now req1 = get_web_stats percent tz d now req2"
    by (simp add: get_web_stats_def)
  have p2: "snd (get_web_stats percent tz d now req1) = d"
    by (simp add: get_web_stats_def web_stats_handler_def Let_def split: sum.split)
  have p3: "org_rows d ''web_logs'' = None"
    by (simp add: org_rows_def)
  have p4: "\<exists>st. fst (get_web_stats percent tz d now \<lparr>authorization = None\<rparr>)
                 = Ok 200 [] (Stats st)
           \<and> ws_total st =
               length (filter (\<lambda>w. start_of_day tz now \<le> w_timestamp w
                                  \<and> w_timestamp w \<le> start_of_day tz now + 86399999)
                         (web_logs d))"
    if "online d"
    unfolding get_web_stats_def web_stats_handler_def Let_def select_day_online [OF that]
    by (simp add: group_count_total)
  have p5: "filter (\<lambda>r. ''authenticate'' \<notin> set (snd r)) get_routes
              = [(''/api/report/web-stats'', [])]"
    by (simp add: get_routes_def)
  from p1 p2 p3 p4 p5 show ?thesis by blast
qed

theorem web_stats_caller_independent_witness:
  "get_web_stats (\<lambda>c t. (200 * c + t) div (2 * t)) 0 (demo_db Server) 86400500
     \<lparr>authorization = Some ''Bearer token-of-ann''\<rparr>
   = get_web_stats (\<lambda>c t. (200 * c + t) div (2 * t)) 0 (demo_db Server) 86400500
     \<lparr>authorization = None\<rparr>
   \<and> (\<exists>st. fst (get_web_stats (\<lambda>c t. (200 * c + t) div (2 * t)) 0 (demo_db Server) 86400500
                  \<lparr>authorization = None\<rparr>) = Ok 200 [] (Stats st)
          \<and> ws_total st = 2)"
proof -
  have on: "online (demo_db Server)" by (simp add: demo_db_def)
  have day: "start_of_day 0 86400500 = 86400000" by (simp add: start_of_day_def)
  have n: "length (filter (\<lambda>w. start_of_day 0 86400500 \<le> w_timestamp w
                             \<and> w_timestamp w \<le> start_of_day 0 86400500 + 86399999)
                     (web_logs (demo_db Server))) = 2"
    unfolding day by (simp add: demo_db_def)
  from web_stats_caller_independent [of "\<lambda>c t. (200 * c + t) div (2 * t)" 0 "demo_db Server"
      86400500 "\<lparr>authorization = Some ''Bearer token-of-ann''\<rparr>" "\<lparr>authorization = None\<rparr>"]
    on n
  show ?thesis by simp
qed

section \<open>The sync reader on the rows of the write path\<close>

text \<open>
  What the reader does with what the write path stored, for a cipher whose \<open>decrypt\<close> undoes
  \<open>encrypt\<close> and whose ciphertext is never NULL. Decrypting the fields that were encrypted
  gives the record back, the two field lists being the same. The records that
  \<open>getPendingSyncLogs\<close> returns are in descending order of \<^verbatim>\<open>created_at\<close>. And when
  its page reaches the row that an entry was stored as, with the ciphertexts in the columns
  as they were given, the four fields of the record equal the fields of the entry.
\<close>

lemma field_lists_agree: "fieldsToDecrypt = fieldsToEncrypt"
  by (simp add: fieldsToDecrypt_def fieldsToEncrypt_def)

lemma decrypt_encrypt_fields:
  assumes inv: "\<forall>v. v \<noteq> Null \<longrightarrow> decrypt c (encrypt c v) = Inr v \<and> encrypt c v \<noteq> Null"
  shows "decryptFields c (encryptFields c r fs) fs = Inr r"
proof (induction r)
  case Nil
  show ?case by (simp add: encryptFields_def)
next
  case (Cons a r)
  obtain k v where a: "a = (k, v)" by (cases a)
  have ih: "decryptFields c (encryptFields c r fs) fs = Inr r"
    by (rule Cons.IH)
  show ?case
  proof (cases "k \<in> set fs \<and> v \<noteq> Null")
    case True
    then have e: "encryptFields c (a # r) fs = (k, encrypt c v) # encryptFields c r fs"
      by (simp add: encryptFields_def a)
    have d: "decrypt c (encrypt c v) = Inr v" "encrypt c v \<noteq> Null"
      using inv True by simp_all
    show ?thesis unfolding e using True d ih a by simp
  next
    case False
    then have e: "encryptFields c (a # r) fs = (k, v) # encryptFields c r fs"
      by (auto simp: encryptFields_def a)
    show ?thesis unfolding e using False ih a by auto
  qed
qed

lemma decryptFields_keeps:
  "decryptFields c r fs = Inr p \<Longrightarrow> f \<notin> set fs \<Longrightarrow> map_of p f = map_of r f"
proof (induction r arbitrary: p)
  case Nil
  then show ?case by simp
next
  case (Cons a r)
  obtain k v where a: "a = (k, v)" by (cases a)
  let ?h = "if k \<in> set fs \<and> v \<noteq> Null then decrypt c v else Inr v"
  from Cons.prems(1) have run: "(case ?h of
        Inl e \<Rightarrow> Inl e
      | Inr q \<Rightarrow>
          (case decryptFields c r fs of
             Inl e \<Rightarrow> Inl e
           | Inr rest \<Rightarrow> Inr ((k, q) # rest))) = Inr p"
    unfolding a by simp
  obtain q where q: "?h = Inr q"
    using run by (cases ?h) simp_all
  obtain rest where rest: "decryptFields c r fs = Inr rest"
    using run unfolding q by (cases "decryptFields c r fs") simp_all
  have p: "p = (k, q) # rest"
    using run unfolding q rest by simp
  have ih: "map_of rest f = map_of r f"
    by (rule Cons.IH [OF rest Cons.prems(2)])
  show ?case
  proof (cases "k = f")
    case True
    then have "q = v" using q Cons.prems(2) by simp
    then show ?thesis unfolding p a using True by simp
  next
    case False
    then show ?thesis unfolding p a using ih by simp
  qed
qed

lemma collect_Inr:
  "collect xs = Inr ys \<Longrightarrow> xs = map Inr ys"
proof (induction xs arbitrary: ys)
  case Nil
  then show ?case by simp
next
  case (Cons x xs)
  obtain a where x: "x = Inr a"
    using Cons.prems by (cases x) simp_all
  obtain as where as: "collect xs = Inr as"
    using Cons.prems unfolding x by (cases "collect xs") simp_all
  have ys: "ys = a # as"
    using Cons.prems as unfolding x by simp
  show ?case unfolding ys x using Cons.IH [OF as] by simp
qed

lemma field_without:
  "g \<noteq> f \<Longrightarrow> field (filter (\<lambda>(k, v). k \<noteq> g) r) f = field r f"
  unfolding field_def by (induction r) auto

lemma sorted_segment:
  "sorted xs \<Longrightarrow> sorted (rev (take n (drop k (rev xs))))"
  by (simp add: rev_take rev_drop sorted_wrt_take sorted_wrt_drop)

lemma created_at_kept: "''created_at'' \<notin> set fieldsToDecrypt"
  by (simp add: fieldsToDecrypt_def)

lemma select_pending_ordered:
  "sorted (rev (map (\<lambda>r. order_key (field r ''created_at'')) (select_pending table opts)))"
proof -
  let ?K = "\<lambda>r. order_key (field r ''created_at'')"
  let ?alive = "filter (\<lambda>r. field r ''deleted_at'' = Null
                    \<and> (truthy (so_organizationId opts) \<longrightarrow>
                         field r ''organization_id'' = Text (the (so_organizationId opts))))
                    table"
  let ?n = "case so_limit opts of None \<Rightarrow> 100 | Some l \<Rightarrow> l"
  let ?k = "case so_offset opts of None \<Rightarrow> 0 | Some k \<Rightarrow> k"
  have key: "?K (filter (\<lambda>(f, v). f \<noteq> ''deleted_at'') r) = ?K r" for r
    by (simp add: field_without)
  have "map ?K (select_pending table opts)
          = map ?K (take ?n (drop ?k (rev (sort_key ?K ?alive))))"
    unfolding select_pending_def Let_def map_map o_def key ..
  also have "\<dots> = take ?n (drop ?k (rev (map ?K (sort_key ?K ?alive))))"
    by (simp only: take_map drop_map rev_map)
  finally have eq: "map ?K (select_pending table opts)
          = take ?n (drop ?k (rev (map ?K (sort_key ?K ?alive))))" .
  have "sorted (map ?K (sort_key ?K ?alive))"
    by (rule sorted_sort_key)
  then show ?thesis unfolding eq by (rule sorted_segment)
qed

lemma getPendingSyncLogs_rows:
  assumes "getPendingSyncLogs c st opts = Inr records"
  shows "length records = length (select_pending (ls_time_logs st) opts)"
    and "k < length records \<Longrightarrow>
         decryptFields c (select_pending (ls_time_logs st) opts ! k) fieldsToDecrypt
           = Inr (records ! k)"
proof -
  let ?page = "select_pending (ls_time_logs st) opts"
  have m: "map (\<lambda>row. decryptFields c row fieldsToDecrypt) ?page = map Inr records"
    using assms unfolding getPendingSyncLogs_def by (rule collect_Inr)
  from m have "length (map (\<lambda>row. decryptFields c row fieldsToDecrypt) ?page)
                 = length (map Inr records :: (decryption_error + obj) list)"
    by (rule arg_cong)
  then show len: "length records = length ?page" by simp
  assume k: "k < length records"
  from m have "map (\<lambda>row. decryptFields c row fieldsToDecrypt) ?page ! k
                 = (map Inr records :: (decryption_error + obj) list) ! k"
    by (rule arg_cong)
  then show "decryptFields c (?page ! k) fieldsToDecrypt = Inr (records ! k)"
    using k len by simp
qed

lemma getPendingSyncLogs_ordered:
  assumes "getPendingSyncLogs c st opts = Inr records"
  shows "sorted (rev (map (\<lambda>r. order_key (field r ''created_at'')) records))"
proof -
  let ?page = "select_pending (ls_time_logs st) opts"
  note rows = getPendingSyncLogs_rows [OF assms]
  have "map (\<lambda>r. order_key (field r ''created_at'')) records
          = map (\<lambda>r. order_key (field r ''created_at'')) ?page"
  proof (rule nth_equalityI)
    show "length (map (\<lambda>r. order_key (field r ''created_at'')) records)
            = length (map (\<lambda>r. order_key (field r ''created_at'')) ?page)"
      using rows(1) by simp
  next
    fix k assume "k < length (map (\<lambda>r. order_key (field r ''created_at'')) records)"
    then have k: "k < length records" by simp
    have "map_of (records ! k) ''created_at'' = map_of (?page ! k) ''created_at''"
      by (rule decryptFields_keeps [OF rows(2) [OF k] created_at_kept])
    then have "field (records ! k) ''created_at'' = field (?page ! k) ''created_at''"
      by (simp add: field_def)
    then show "map (\<lambda>r. order_key (field r ''created_at'')) records ! k
                 = map (\<lambda>r. order_key (field r ''created_at'')) ?page ! k"
      using k rows(1) by simp
  qed
  then show ?thesis using select_pending_ordered [of "ls_time_logs st" opts] by simp
qed

lemma map_of_encryptFields:
  "map_of (encryptFields c r fs) f =
     map_option (\<lambda>v. if f \<in> set fs \<and> v \<noteq> Null then encrypt c v else v) (map_of r f)"
proof (induction r)
  case Nil
  show ?case by (simp add: encryptFields_def)
next
  case (Cons a r)
  obtain k v where a: "a = (k, v)" by (cases a)
  have e: "encryptFields c ((k, v) # r) fs =
             (k, if k \<in> set fs \<and> v \<noteq> Null then encrypt c v else v) # encryptFields c r fs"
    by (simp add: encryptFields_def)
  show ?case unfolding a e using Cons.IH by simp
qed

lemma map_of_columns:
  "col \<in> set cols \<Longrightarrow> map_of (map (\<lambda>col. (col, h col)) cols) col = Some (h col)"
  by (induction cols) auto

lemma map_of_without:
  "g \<noteq> f \<Longrightarrow> map_of (filter (\<lambda>(k, v). k \<noteq> g) r) f = map_of r f"
  by (induction r) auto

lemma decryptFields_map_of:
  "decryptFields c r fs = Inr p \<Longrightarrow> map_of r f = Some v \<Longrightarrow>
   (if f \<in> set fs \<and> v \<noteq> Null then decrypt c v else Inr v) = Inr w \<Longrightarrow>
   map_of p f = Some w"
proof (induction r arbitrary: p)
  case Nil
  then show ?case by simp
next
  case (Cons a r)
  obtain k x where a: "a = (k, x)" by (cases a)
  let ?h = "if k \<in> set fs \<and> x \<noteq> Null then decrypt c x else Inr x"
  from Cons.prems(1) have run: "(case ?h of
        Inl e \<Rightarrow> Inl e
      | Inr q \<Rightarrow>
          (case decryptFields c r fs of
             Inl e \<Rightarrow> Inl e
           | Inr rest \<Rightarrow> Inr ((k, q) # rest))) = Inr p"
    unfolding a by simp
  obtain q where q: "?h = Inr q"
    using run by (cases ?h) simp_all
  obtain rest where rest: "decryptFields c r fs = Inr rest"
    using run unfolding q by (cases "decryptFields c r fs") simp_all
  have p: "p = (k, q) # rest"
    using run unfolding q rest by simp
  show ?case
  proof (cases "k = f")
    case True
    then have "x = v" using Cons.prems(2) a by simp
    with True have "?h = (if f \<in> set fs \<and> v \<noteq> Null then decrypt c v else Inr v)"
      by simp
    then have "Inr q = (Inr w :: decryption_error + cell)"
      using q Cons.prems(3) by simp
    then have "q = w" by simp
    then show ?thesis unfolding p using True by simp
  next
    case False
    then have "map_of r f = Some v" using Cons.prems(2) a by simp
    from Cons.IH [OF rest this Cons.prems(3)] show ?thesis unfolding p using False by simp
  qed
qed

lemma insertTimeLog_row:
  assumes "insertTimeLog c affinity now st data = Inr (returned, st')"
  shows "ls_time_logs st'
           = ls_time_logs st @ [stored_row affinity now (encryptFields c data fieldsToEncrypt)]"
    and "row_ok st (stored_row affinity now (encryptFields c data fieldsToEncrypt))"
proof -
  let ?row = "stored_row affinity now (encryptFields c data fieldsToEncrypt)"
  obtain st2 where ins: "insert_row affinity now st (encryptFields c data fieldsToEncrypt) = Inr st2"
    using assms unfolding insertTimeLog_def Let_def
    by (cases "insert_row affinity now st (encryptFields c data fieldsToEncrypt)") simp_all
  have st2: "st' = st2"
    using assms unfolding insertTimeLog_def Let_def ins by simp
  have ok: "set (map fst (encryptFields c data fieldsToEncrypt)) \<subseteq> set time_log_columns
            \<and> row_ok st ?row"
    using ins unfolding insert_row_def by (simp split: if_splits)
  then show "row_ok st ?row" by simp
  have "st2 = st\<lparr>ls_time_logs := ls_time_logs st @ [?row]\<rparr>"
    using ins ok unfolding insert_row_def by simp
  then show "ls_time_logs st' = ls_time_logs st @ [?row]"
    unfolding st2 by simp
qed

lemma encrypted_columns: "set fieldsToEncrypt \<subseteq> set time_log_columns"
  by (simp add: fieldsToEncrypt_def time_log_columns_def)

lemma sync_read_fidelity:
  assumes inv: "\<forall>v. v \<noteq> Null \<longrightarrow> decrypt c (encrypt c v) = Inr v \<and> encrypt c v \<noteq> Null"
    and aff: "\<forall>col \<in> set fieldsToEncrypt. affinity col Null = Null
                \<and> (\<forall>v. affinity col (encrypt c v) = encrypt c v)"
    and read: "getPendingSyncLogs c st opts = Inr records"
    and k: "k < length records"
    and row: "select_pending (ls_time_logs st) opts ! k
                = filter (\<lambda>(f, v). f \<noteq> ''deleted_at'')
                    (stored_row affinity now (encryptFields c data fieldsToEncrypt))"
    and f: "f \<in> set fieldsToEncrypt" "f \<in> set (map fst data)"
  shows "field (records ! k) f = field data f"
proof -
  obtain v where v: "map_of data f = Some v"
    using f(2) by (cases "map_of data f") (auto simp: map_of_eq_None_iff)
  let ?s = "if v \<noteq> Null then encrypt c v else Null"
  have fd: "f \<in> set fieldsToDecrypt" "f \<noteq> ''deleted_at''" "f \<in> set time_log_columns"
    using f(1) encrypted_columns by (auto simp: fieldsToDecrypt_def fieldsToEncrypt_def)
  have enc: "map_of (encryptFields c data fieldsToEncrypt) f
               = Some (if v \<noteq> Null then encrypt c v else v)"
    unfolding map_of_encryptFields v using f(1) by simp
  have "map_of (stored_row affinity now (encryptFields c data fieldsToEncrypt)) f
          = Some (affinity f (if v \<noteq> Null then encrypt c v else v))"
    unfolding stored_row_def map_of_columns [OF fd(3)] enc by simp
  also have "affinity f (if v \<noteq> Null then encrypt c v else v) = ?s"
    using aff f(1) by auto
  finally have st: "map_of (stored_row affinity now (encryptFields c data fieldsToEncrypt)) f
          = Some ?s" .
  have "map_of (filter (\<lambda>(k, v). k \<noteq> ''deleted_at'')
                  (stored_row affinity now (encryptFields c data fieldsToEncrypt))) f
          = map_of (stored_row affinity now (encryptFields c data fieldsToEncrypt)) f"
    by (rule map_of_without) (use fd(2) in simp)
  then have page: "map_of (select_pending (ls_time_logs st) opts ! k) f = Some ?s"
    unfolding row st .
  have dec: "(if f \<in> set fieldsToDecrypt \<and> ?s \<noteq> Null then decrypt c ?s else Inr ?s) = Inr v"
    using inv fd(1) by auto
  have "map_of (records ! k) f = Some v"
    by (rule decryptFields_map_of [OF getPendingSyncLogs_rows(2) [OF read k] page dec])
  then show ?thesis using v by (simp add: field_def)
qed

section \<open>Claim C6: reading back what the encrypting write path inserted\<close>


lemma sync_reader_example:
  "(case insertTimeLog demo_cipher demo_affinity (Text ''2024-01-02 00:00:00'')
           (sync_store\<lparr>ls_projects := [''P1'', ''enc:P1'']\<rparr>) sync_entry of
      Inl e \<Rightarrow> False
    | Inr (returned, st) \<Rightarrow>
        map (\<lambda>r. map (field r) fieldsToEncrypt) (ls_time_logs st)
          = [[Text ''enc:P1'', Text ''enc:2024-01-01T09:00:00Z'',
              Text ''enc:2024-01-01T17:00:00Z'', Text ''enc#85'']]
        \<and> (case getPendingSyncLogs demo_cipher st
                    \<lparr>so_organizationId = Some ''orgA'', so_limit = None, so_offset = None\<rparr> of
             Inl e \<Rightarrow> False
           | Inr records \<Rightarrow>
               map (\<lambda>r. map (field r) fieldsToDecrypt) records
                 = [map (field sync_entry) fieldsToEncrypt]))"
  by code_simp

end
